theory Spec2Isabelle
  imports Main "HOL-Library.Word"
begin

unbundle bit_operations_syntax

section \<open>The message-invocation runtime of the legacy VM\<close>

text \<open>
  A shallow embedding of \<^verbatim>\<open>pkg/vm/vmcontext/invocation_context.go\<close> and
  \<^verbatim>\<open>pkg/vm/dispatch/dispatch.go\<close>.

  Go panics are values: a function that may panic returns \<open>panic + 'a\<close>, and it returns
  the invocation context and the VM as they are at that moment, because a panic does not
  undo the writes made before it. \<^verbatim>\<open>runtime.Abort(code)\<close> and
  \<^verbatim>\<open>runtime.Abortf(code, ...)\<close> panic with a \<^verbatim>\<open>runtime.ExecutionPanic\<close>
  that carries the exit code; every other panic (\<^verbatim>\<open>panic(err)\<close>, a nil dereference,
  an index out of range) is \<open>OtherPanic\<close>.

  The state tree, the price list, the address codec, the actor registry and the VM's
  \<^verbatim>\<open>transfer\<close> and \<^verbatim>\<open>normalizeAddress\<close> are not part of the files embedded here;
  they are the fields of the record \<open>vmenv\<close>, and every theorem holds for every
  implementation of them.
\<close>

subsection \<open>Exit codes, addresses, actors, messages\<close>

type_synonym bytes = "8 word list"

text \<open>Modelled from the spec: a CID is an opaque content identifier (the type is go-cid's);
  \<open>CidUndef\<close> is \<^verbatim>\<open>cid.Undef\<close>, and \<^verbatim>\<open>c.Defined()\<close> tells it from the
  rest.\<close>

datatype cid = CidUndef | Cid nat

definition Defined :: "cid \<Rightarrow> bool" where
  "Defined c = (c \<noteq> CidUndef)"

text \<open>\<^verbatim>\<open>exitcode.ExitCode\<close> is an \<^verbatim>\<open>int64\<close>; the runtime only compares codes. The
  named codes carry the numbers of the package \<^verbatim>\<open>go-state-types/exitcode\<close> that the
  source imports; the spec fixes \<^verbatim>\<open>Ok\<close> as 0, and the source writes the generic
  failure as the literal \<^verbatim>\<open>1\<close>.\<close>

type_synonym exitcode = int

definition Ok :: exitcode where "Ok = 0"
definition SysErrSenderInvalid :: exitcode where "SysErrSenderInvalid = 1"
definition SysErrSenderStateInvalid :: exitcode where "SysErrSenderStateInvalid = 2"
definition SysErrInvalidMethod :: exitcode where "SysErrInvalidMethod = 3"
definition SysErrInvalidReceiver :: exitcode where "SysErrInvalidReceiver = 5"
definition SysErrInsufficientFunds :: exitcode where "SysErrInsufficientFunds = 6"
definition SysErrOutOfGas :: exitcode where "SysErrOutOfGas = 7"
definition SysErrForbidden :: exitcode where "SysErrForbidden = 8"
definition SysErrorIllegalActor :: exitcode where "SysErrorIllegalActor = 9"
definition SysErrorIllegalArgument :: exitcode where "SysErrorIllegalArgument = 10"
definition ErrSerialization :: exitcode where "ErrSerialization = 21"

text \<open>\<^verbatim>\<open>code.IsError()\<close> is \<^verbatim>\<open>code != Ok\<close>.\<close>

definition IsError :: "exitcode \<Rightarrow> bool" where
  "IsError code = (code \<noteq> Ok)"

datatype panic = ExecutionPanic exitcode | OtherPanic

text \<open>What a failing external call hands back; \<^verbatim>\<open>DeleteActor\<close> tells
  \<^verbatim>\<open>types.ErrActorNotFound\<close> from the rest.\<close>

datatype error = ErrActorNotFound | ErrOther

text \<open>Modelled from the spec: the address type is go-address's. The spec gives it as the
  tagged union \<^verbatim>\<open>ID(u64) | BLS(bytes) | SECP256K1(bytes) | Actor(bytes) |
  Delegated(ns, bytes) | Undef\<close>; \<^verbatim>\<open>Protocol()\<close> is the tag.\<close>

datatype protocol = ID | SECP256K1 | Actor | BLS | Delegated | Unknown

datatype address =
    IDAddr "64 word"
  | SECPAddr bytes
  | ActorAddr bytes
  | BLSAddr bytes
  | DelegatedAddr "64 word" bytes
  | Undef

fun Protocol :: "address \<Rightarrow> protocol" where
  "Protocol (IDAddr _) = ID"
| "Protocol (SECPAddr _) = SECP256K1"
| "Protocol (ActorAddr _) = Actor"
| "Protocol (BLSAddr _) = BLS"
| "Protocol (DelegatedAddr _ _) = Delegated"
| "Protocol Undef = Unknown"

text \<open>The well-known addresses \<^verbatim>\<open>builtin.SystemActorAddr\<close> (f00) and
  \<^verbatim>\<open>init_.Address\<close> (f01), and the two method numbers the runtime itself uses.\<close>

definition SystemActorAddr :: address where "SystemActorAddr = IDAddr 0"
definition init_Address :: address where "init_Address = IDAddr 1"

definition MethodSend :: "64 word" where "MethodSend = 0"
definition MethodConstructor :: "64 word" where "MethodConstructor = 1"

text \<open>\<^verbatim>\<open>network.Version3\<close>, \<^verbatim>\<open>Version6\<close> and \<^verbatim>\<open>Version7\<close>.\<close>

definition Version3 :: nat where "Version3 = 3"
definition Version6 :: nat where "Version6 = 6"
definition Version7 :: nat where "Version7 = 7"

text \<open>Modelled from the spec: \<^verbatim>\<open>types.Actor\<close> is the actor record
  \<^verbatim>\<open>{code, head, nonce, balance, delegated_address?}\<close>.\<close>

record Actor =
  Code :: cid
  Head :: cid
  Nonce :: "64 word"
  Balance :: int
  DelegatedAddress :: "address option"

text \<open>A decoded parameter or return object, as far as the runtime looks into it.\<close>

datatype obj = ObjAddress address | ObjData bytes

text \<open>\<^verbatim>\<open>VmMessage.Params\<close> is an \<^verbatim>\<open>interface{}\<close>; \<^verbatim>\<open>Dispatch\<close> switches on its
  dynamic type.\<close>

datatype params =
    ParamsNil
  | ParamsBytes bytes
  | ParamsCBORBytes2 bytes
  | ParamsCBORBytes3 bytes
  | ParamsCBORBytes bytes
  | ParamsObj obj

text \<open>\<^verbatim>\<open>VmMessage\<close>, with the five fields the source reads and writes.
  \<^verbatim>\<open>Value\<close> is a \<^verbatim>\<open>big.Int\<close> that may be nil (\<open>None\<close>); \<^verbatim>\<open>Method\<close> is a
  \<^verbatim>\<open>uint64\<close>.\<close>

record VmMessage =
  From :: address
  To :: address
  Value :: "int option"
  Method :: "64 word"
  Params :: params

record topLevelContext =
  originatorStableAddress :: address
  originatorCallSeq :: "64 word"
  newActorAddressCount :: "64 word"

text \<open>The fields of \<^verbatim>\<open>invocationContext\<close> that belong to one frame. The pointers
  \<^verbatim>\<open>vm\<close>, \<^verbatim>\<open>topLevel\<close> and \<^verbatim>\<open>gasTank\<close> are shared by all frames of a top-level
  message and live in the record \<open>machine\<close> below; \<^verbatim>\<open>randSource\<close> and
  \<^verbatim>\<open>gasIpld\<close> are only handed on to child frames and to the actor storage.
  \<open>stateHandle\<close> is \<open>True\<close> while the pointer is not nil.\<close>

record invocationContext =
  originMsg :: VmMessage
  msg :: VmMessage
  isCallerValidated :: bool
  depth :: "64 word"
  allowSideEffects :: bool
  stateHandle :: bool

subsection \<open>The gas tank and the snapshot stack\<close>

text \<open>Modelled from the spec: the gas tracker of \<^verbatim>\<open>pkg/vm/gas\<close> is not among the
  embedded files. It holds available and used gas; \<^verbatim>\<open>Charge\<close> deducts and aborts with
  \<^verbatim>\<open>SysErrOutOfGas\<close> when available gas would go negative; \<^verbatim>\<open>TryCharge\<close> reports
  success or failure without aborting.\<close>

record GasTracker =
  GasAvailable :: int
  GasUsed :: int

definition Charge :: "GasTracker \<Rightarrow> int \<Rightarrow> panic + GasTracker" where
  "Charge g cost =
     (if GasAvailable g - cost < 0 then Inl (ExecutionPanic SysErrOutOfGas)
      else Inr (g\<lparr>GasAvailable := GasAvailable g - cost, GasUsed := GasUsed g + cost\<rparr>))"

definition TryCharge :: "GasTracker \<Rightarrow> int \<Rightarrow> bool \<times> GasTracker" where
  "TryCharge g cost =
     (if GasAvailable g - cost < 0 then (False, g)
      else (True, g\<lparr>GasAvailable := GasAvailable g - cost, GasUsed := GasUsed g + cost\<rparr>))"

text \<open>\<^verbatim>\<open>gasOnActorExec = gas.NewGasCharge("OnActorExec", 0, 0)\<close>.\<close>

definition gasOnActorExec :: int where "gasOnActorExec = 0"

text \<open>What all frames share: the state tree \<^verbatim>\<open>vm.State\<close> with its stack of
  checkpoints, the gas tank and the top-level context.\<close>

record 't machine =
  State :: 't
  snaps :: "'t list"
  gasTank :: GasTracker
  topLevel :: topLevelContext

text \<open>Modelled from the spec: \<^verbatim>\<open>vm.snapshot\<close>, \<^verbatim>\<open>vm.revert\<close> and
  \<^verbatim>\<open>vm.clearSnapshot\<close> are not among the embedded files. The spec describes a stack of
  state-tree checkpoints, pushed on each entry to \<^verbatim>\<open>invoke\<close> and popped on exit;
  reverting puts the tree back to the checkpoint on top of the stack, and after a
  snapshot/revert pair the observable state is the state before the snapshot.
  \<^verbatim>\<open>invoke\<close> calls \<^verbatim>\<open>revert\<close> and then \<^verbatim>\<open>clearSnapshot\<close> on an abort, so here
  \<open>revert\<close> restores without popping and \<open>clearSnapshot\<close> pops. Reverting with no
  checkpoint is the error the source checks for.\<close>

definition snapshot :: "'t machine \<Rightarrow> error + 't machine" where
  "snapshot vm = Inr (vm\<lparr>snaps := State vm # snaps vm\<rparr>)"

definition revert :: "'t machine \<Rightarrow> error + 't machine" where
  "revert vm = (case snaps vm of [] \<Rightarrow> Inl ErrOther | t # ts \<Rightarrow> Inr (vm\<lparr>State := t\<rparr>))"

definition clearSnapshot :: "'t machine \<Rightarrow> 't machine" where
  "clearSnapshot vm = vm\<lparr>snaps := tl (snaps vm)\<rparr>"

subsection \<open>Actor code as seen from the runtime\<close>

text \<open>What a method hands back to \<^verbatim>\<open>Dispatch\<close> through reflection: no value at all,
  a nil pointer, slice or interface, raw bytes, the \<^verbatim>\<open>*abi.EmptyValue\<close> sentinel, a
  \<^verbatim>\<open>cbor.Marshaler\<close> together with what its \<^verbatim>\<open>MarshalCBOR\<close> produces (\<open>None\<close> when
  it fails), a value of a kind on which \<^verbatim>\<open>reflect.Value.IsNil\<close> panics, or any other
  value.\<close>

datatype retval =
    RetNothing
  | RetNil
  | RetBytes bytes
  | RetEmptyValue
  | RetMarshaler "bytes option"
  | RetNotNillable
  | RetOther

text \<open>\<^verbatim>\<open>runtime.CallerPattern\<close>: \<^verbatim>\<open>IsMatch\<close> reads the pattern context's
  \<^verbatim>\<open>CallerCode()\<close> (\<open>None\<close> when that call panics) and \<^verbatim>\<open>CallerAddr()\<close>, and
  answers, or panics itself (\<open>None\<close>).\<close>

type_synonym CallerPattern = "cid option \<Rightarrow> address \<Rightarrow> bool option"

text \<open>A method body is foreign code that reaches the runtime only through the calls of
  \<^verbatim>\<open>invocationContext\<close> and of its state handle. It is the tree of those calls: each
  node is one call, and the continuation receives what the call returns. \<open>Return\<close>,
  \<open>Abort\<close> and \<open>Panic\<close> end the body, and so does a panic inside a call: a body does
  not recover from it. The argument \<open>bytes \<Rightarrow> bool\<close> of \<open>CallSend\<close> is
  \<^verbatim>\<open>out.UnmarshalCBOR\<close>: whether the returned bytes decode into \<^verbatim>\<open>out\<close>.\<close>

datatype prog =
    Return retval
  | Abort exitcode
  | Panic
  | CallValidateCaller CallerPattern prog
  | CallSend address "64 word" params "int option" "bytes \<Rightarrow> bool" "exitcode \<Rightarrow> bytes \<Rightarrow> prog"
  | CallCreateActor cid address prog
  | CallDeleteActor address prog
  | CallNewActorAddress "address \<Rightarrow> prog"
  | CallBalance "int \<Rightarrow> prog"
  | CallMessage "VmMessage \<Rightarrow> prog"
  | CallAllowSideEffects bool prog
  | CallStateCreate obj "cid \<Rightarrow> prog"
  | CallStateLoad "cid \<Rightarrow> prog"
  | CallStateReplace cid obj "cid \<Rightarrow> prog"

text \<open>An entry of \<^verbatim>\<open>Exports()\<close> with its \<^verbatim>\<open>methodSignature\<close>: \<^verbatim>\<open>ArgInterface\<close>
  decodes raw parameter bytes into the declared parameter type (\<open>None\<close> when decoding
  fails), \<^verbatim>\<open>ArgNil\<close> is the declared nil value, \<open>Call\<close> is the method.\<close>

record method_entry =
  ArgInterface :: "bytes \<Rightarrow> obj option"
  ArgNil :: obj
  Call :: "obj \<Rightarrow> prog"

text \<open>\<^verbatim>\<open>actorDispatcher\<close>; a nil entry of \<^verbatim>\<open>Exports()\<close> is \<open>None\<close>.\<close>

record actorDispatcher =
  dispatcher_code :: cid
  Exports :: "method_entry option list"

datatype ExcuteError = NewExcuteError exitcode

fun ExitCode :: "ExcuteError \<Rightarrow> exitcode" where
  "ExitCode (NewExcuteError c) = c"

subsection \<open>The interfaces the runtime consumes\<close>

text \<open>The state tree \<open>'t\<close> and everything else the embedded files call but do not
  define. A call that returns \<^verbatim>\<open>(value, found, err)\<close> is \<open>error + value option\<close>;
  a VM helper that can only die with \<^verbatim>\<open>panic(err)\<close> is an \<open>option\<close>; one that can
  abort with an exit code is \<open>panic + _\<close>. The fields \<open>State_...\<close> are the methods of
  \<^verbatim>\<open>vm.State\<close>; \<open>init_Load\<close> is \<^verbatim>\<open>init_.Load\<close> and gives the loaded state's
  \<^verbatim>\<open>ResolveAddress\<close>; \<open>GetActorCodeID_AccountKey\<close> is
  \<^verbatim>\<open>actors.GetActorCodeID(ver, manifest.AccountKey)\<close>; \<open>MarshalCBOR\<close> and
  \<open>address_NewActorAddress\<close> are the codec and the hash of go-address;
  \<open>StorePut\<close> and \<open>StoreGet\<close> are the actor storage, which charges the gas tank it is
  given; \<open>MaxCallDepth\<close> is the constant of that name.\<close>

record 't vmenv =
  NetworkVersion :: nat
  MaxCallDepth :: "64 word"
  normalizeAddress :: "'t \<Rightarrow> address \<Rightarrow> (address \<times> bool) option"
  transfer :: "'t \<Rightarrow> address \<Rightarrow> address \<Rightarrow> int \<Rightarrow> nat \<Rightarrow> panic + 't"
  getActorImpl :: "cid \<Rightarrow> panic + actorDispatcher"
  State_GetActor :: "'t \<Rightarrow> address \<Rightarrow> error + Actor option"
  State_SetActor :: "'t \<Rightarrow> address \<Rightarrow> Actor \<Rightarrow> error + 't"
  State_DeleteActor :: "'t \<Rightarrow> address \<Rightarrow> error + 't"
  State_RegisterNewAddress :: "'t \<Rightarrow> address \<Rightarrow> error + address \<times> 't"
  init_Load :: "Actor \<Rightarrow> error + (address \<Rightarrow> error + address option)"
  OnMethodInvocation :: "int option \<Rightarrow> 64 word \<Rightarrow> int"
  OnCreateActor :: int
  OnDeleteActor :: int
  VersionForNetwork :: "nat \<Rightarrow> error + nat"
  GetActorCodeID_AccountKey :: "nat \<Rightarrow> cid option"
  ResolveToDeterministicAddress :: "'t \<Rightarrow> address \<Rightarrow> error + address"
  MarshalCBOR :: "address \<Rightarrow> error + bytes"
  address_NewActorAddress :: "bytes \<Rightarrow> error + address"
  EmptyObjectCid :: cid
  StorePut :: "GasTracker \<Rightarrow> obj \<Rightarrow> panic + cid \<times> GasTracker"
  StoreGet :: "GasTracker \<Rightarrow> cid \<Rightarrow> panic + bool \<times> GasTracker"

subsection \<open>Constructing a frame\<close>

text \<open>\<^verbatim>\<open>newInvocationContext\<close>. The depth of the new frame is a \<^verbatim>\<open>uint64\<close>:
  \<^verbatim>\<open>parent.depth + 1\<close> wraps around.\<close>

definition newInvocationContext ::
  "'t vmenv \<Rightarrow> 't machine \<Rightarrow> VmMessage \<Rightarrow> invocationContext option \<Rightarrow> panic + invocationContext"
where
  "newInvocationContext env vm mesg parent =
     (case (case parent of
              None \<Rightarrow> Inr 0
            | Some p \<Rightarrow>
                if \<not> allowSideEffects p \<and> NetworkVersion env \<ge> Version7
                then Inl (ExecutionPanic SysErrForbidden)
                else Inr (depth p + 1)) of
        Inl e \<Rightarrow> Inl e
      | Inr d \<Rightarrow>
          if d > MaxCallDepth env \<and> NetworkVersion env \<ge> Version6
          then Inl (ExecutionPanic SysErrForbidden)
          else (case normalizeAddress env (State vm) (From mesg) of
                  None \<Rightarrow> Inl OtherPanic
                | Some (resF, ok) \<Rightarrow>
                    if \<not> ok then Inl (ExecutionPanic SysErrInvalidReceiver)
                    else (case (if NetworkVersion env > Version3
                                then map_option fst (normalizeAddress env (State vm) (To mesg))
                                else Some (To mesg)) of
                            None \<Rightarrow> Inl OtherPanic
                          | Some resT \<Rightarrow>
                              Inr \<lparr>originMsg = mesg,
                                   msg = mesg\<lparr>From := resF, To := resT\<rparr>,
                                   isCallerValidated = False,
                                   depth = d,
                                   allowSideEffects = True,
                                   stateHandle = False\<rparr>)))"

subsection \<open>The state handle\<close>

text \<open>\<^verbatim>\<open>stateHandleContext.AllowSideEffects\<close>.\<close>

definition AllowSideEffects :: "bool \<Rightarrow> invocationContext \<Rightarrow> invocationContext" where
  "AllowSideEffects allow shc = shc\<lparr>allowSideEffects := allow\<rparr>"

definition loadActor :: "'t vmenv \<Rightarrow> invocationContext \<Rightarrow> 't machine \<Rightarrow> panic + Actor" where
  "loadActor env shc vm =
     (case State_GetActor env (State vm) (To (originMsg shc)) of
        Inl e \<Rightarrow> Inl OtherPanic
      | Inr None \<Rightarrow> Inl OtherPanic
      | Inr (Some entry) \<Rightarrow> Inr entry)"

definition storeActor ::
  "'t vmenv \<Rightarrow> invocationContext \<Rightarrow> Actor \<Rightarrow> 't machine \<Rightarrow> (panic + unit) \<times> 't machine"
where
  "storeActor env shc actr vm =
     (case State_SetActor env (State vm) (To (originMsg shc)) actr of
        Inl e \<Rightarrow> (Inl OtherPanic, vm)
      | Inr t \<Rightarrow> (Inr (), vm\<lparr>State := t\<rparr>))"

text \<open>\<^verbatim>\<open>shc.store().StorePut(obj)\<close> and \<^verbatim>\<open>StoreGet\<close>: the actor storage charges the
  shared gas tank.\<close>

definition store_StorePut ::
  "'t vmenv \<Rightarrow> obj \<Rightarrow> 't machine \<Rightarrow> (panic + cid) \<times> 't machine"
where
  "store_StorePut env ob vm =
     (case StorePut env (gasTank vm) ob of
        Inl e \<Rightarrow> (Inl e, vm)
      | Inr (c, g) \<Rightarrow> (Inr c, vm\<lparr>gasTank := g\<rparr>))"

definition store_StoreGet ::
  "'t vmenv \<Rightarrow> cid \<Rightarrow> 't machine \<Rightarrow> (panic + bool) \<times> 't machine"
where
  "store_StoreGet env c vm =
     (case StoreGet env (gasTank vm) c of
        Inl e \<Rightarrow> (Inl e, vm)
      | Inr (found, g) \<Rightarrow> (Inr found, vm\<lparr>gasTank := g\<rparr>))"

definition Create ::
  "'t vmenv \<Rightarrow> invocationContext \<Rightarrow> obj \<Rightarrow> 't machine \<Rightarrow> (panic + cid) \<times> 't machine"
where
  "Create env shc ob vm =
     (case loadActor env shc vm of
        Inl e \<Rightarrow> (Inl e, vm)
      | Inr actr \<Rightarrow>
          if Defined (Head actr) then (Inl (ExecutionPanic SysErrorIllegalActor), vm)
          else (case store_StorePut env ob vm of
                  (Inl e, vm1) \<Rightarrow> (Inl e, vm1)
                | (Inr c, vm1) \<Rightarrow>
                    (case storeActor env shc (actr\<lparr>Head := c\<rparr>) vm1 of
                       (Inl e, vm2) \<Rightarrow> (Inl e, vm2)
                     | (Inr u, vm2) \<Rightarrow> (Inr c, vm2))))"

definition Load ::
  "'t vmenv \<Rightarrow> invocationContext \<Rightarrow> 't machine \<Rightarrow> (panic + cid) \<times> 't machine"
where
  "Load env shc vm =
     (case loadActor env shc vm of
        Inl e \<Rightarrow> (Inl e, vm)
      | Inr actr \<Rightarrow>
          if \<not> Defined (Head actr) then (Inl (ExecutionPanic SysErrorIllegalActor), vm)
          else (case store_StoreGet env (Head actr) vm of
                  (Inl e, vm1) \<Rightarrow> (Inl e, vm1)
                | (Inr found, vm1) \<Rightarrow>
                    if \<not> found then (Inl OtherPanic, vm1) else (Inr (Head actr), vm1)))"

definition Replace ::
  "'t vmenv \<Rightarrow> invocationContext \<Rightarrow> cid \<Rightarrow> obj \<Rightarrow> 't machine \<Rightarrow> (panic + cid) \<times> 't machine"
where
  "Replace env shc expected ob vm =
     (case loadActor env shc vm of
        Inl e \<Rightarrow> (Inl e, vm)
      | Inr actr \<Rightarrow>
          if Head actr \<noteq> expected then (Inl OtherPanic, vm)
          else (case store_StorePut env ob vm of
                  (Inl e, vm1) \<Rightarrow> (Inl e, vm1)
                | (Inr c, vm1) \<Rightarrow>
                    (case storeActor env shc (actr\<lparr>Head := c\<rparr>) vm1 of
                       (Inl e, vm2) \<Rightarrow> (Inl e, vm2)
                     | (Inr u, vm2) \<Rightarrow> (Inr c, vm2))))"

subsection \<open>The calls a method body can make\<close>

text \<open>\<^verbatim>\<open>patternContext2.CallerCode\<close> panics when the caller's actor cannot be loaded.\<close>

definition CallerCode :: "'t vmenv \<Rightarrow> invocationContext \<Rightarrow> 't machine \<Rightarrow> cid option" where
  "CallerCode env ctx vm =
     (case State_GetActor env (State vm) (From (originMsg ctx)) of
        Inl e \<Rightarrow> None
      | Inr None \<Rightarrow> None
      | Inr (Some toActor) \<Rightarrow> Some (Code toActor))"

definition CallerAddr :: "invocationContext \<Rightarrow> address" where
  "CallerAddr ctx = From (msg ctx)"

definition IsMatch :: "CallerPattern \<Rightarrow> 't vmenv \<Rightarrow> invocationContext \<Rightarrow> 't machine \<Rightarrow> bool option" where
  "IsMatch pattern env ctx vm = pattern (CallerCode env ctx vm) (CallerAddr ctx)"

definition ValidateCaller ::
  "'t vmenv \<Rightarrow> CallerPattern \<Rightarrow> invocationContext \<Rightarrow> 't machine
     \<Rightarrow> (panic + unit) \<times> invocationContext \<times> 't machine"
where
  "ValidateCaller env pattern ctx vm =
     (if isCallerValidated ctx then (Inl (ExecutionPanic SysErrorIllegalActor), ctx, vm)
      else (case IsMatch pattern env ctx vm of
              None \<Rightarrow> (Inl OtherPanic, ctx, vm)
            | Some matches \<Rightarrow>
                if \<not> matches then (Inl (ExecutionPanic SysErrForbidden), ctx, vm)
                else (Inr (), ctx\<lparr>isCallerValidated := True\<rparr>, vm)))"

definition Balance_of :: "'t vmenv \<Rightarrow> invocationContext \<Rightarrow> 't machine \<Rightarrow> panic + int" where
  "Balance_of env ctx vm =
     (case State_GetActor env (State vm) (To (originMsg ctx)) of
        Inl e \<Rightarrow> Inl OtherPanic
      | Inr None \<Rightarrow> Inr 0
      | Inr (Some toActor) \<Rightarrow> Inr (Balance toActor))"

text \<open>\<^verbatim>\<open>binary.Write(buf, binary.BigEndian, x)\<close> for a \<^verbatim>\<open>uint64\<close>: eight bytes, the
  most significant first. Writing to a \<^verbatim>\<open>bytes.Buffer\<close> does not fail.\<close>

definition be64 :: "64 word \<Rightarrow> bytes" where
  "be64 w = map (\<lambda>i. ucast (drop_bit (8 * i) w)) [7, 6, 5, 4, 3, 2, 1, 0]"

text \<open>\<^verbatim>\<open>NewActorAddress\<close> reads the top-level context and the state tree and writes
  nothing, so the VM it returns is the VM it was given.\<close>

definition NewActorAddress ::
  "'t vmenv \<Rightarrow> invocationContext \<Rightarrow> 't machine \<Rightarrow> (panic + address) \<times> 't machine"
where
  "NewActorAddress env ctx vm =
     (case ResolveToDeterministicAddress env (State vm)
             (originatorStableAddress (topLevel vm)) of
        Inl e \<Rightarrow> (Inl OtherPanic, vm)
      | Inr origin \<Rightarrow>
          (case MarshalCBOR env origin of
             Inl e \<Rightarrow> (Inl OtherPanic, vm)
           | Inr buf \<Rightarrow>
               (case address_NewActorAddress env
                       (buf @ be64 (originatorCallSeq (topLevel vm))
                            @ be64 (newActorAddressCount (topLevel vm))) of
                  Inl e \<Rightarrow> (Inl OtherPanic, vm)
                | Inr actorAddress \<Rightarrow> (Inr actorAddress, vm))))"

definition CreateActor ::
  "'t vmenv \<Rightarrow> invocationContext \<Rightarrow> cid \<Rightarrow> address \<Rightarrow> 't machine \<Rightarrow> (panic + unit) \<times> 't machine"
where
  "CreateActor env ctx codeID addr vm =
     (if addr = Undef \<and> NetworkVersion env \<ge> Version7
      then (Inl (ExecutionPanic SysErrorIllegalArgument), vm)
      else (case State_GetActor env (State vm) addr of
              Inl e \<Rightarrow> (Inl OtherPanic, vm)
            | Inr (Some a) \<Rightarrow> (Inl (ExecutionPanic SysErrorIllegalArgument), vm)
            | Inr None \<Rightarrow>
                (case State_SetActor env (State vm) addr
                        \<lparr>Code = codeID, Head = EmptyObjectCid env, Nonce = 0, Balance = 0,
                         DelegatedAddress = Some addr\<rparr> of
                   Inl e \<Rightarrow> (Inl OtherPanic, vm)
                 | Inr t \<Rightarrow>
                     (Inr (), vm\<lparr>State := t,
                                 gasTank := snd (TryCharge (gasTank vm) gasOnActorExec)\<rparr>))))"

text \<open>The beneficiary checks of \<^verbatim>\<open>DeleteActor\<close>, made at network version 7 and later
  inside the branch for a non-zero balance.\<close>

definition checkBeneficiary :: "'t vmenv \<Rightarrow> 't \<Rightarrow> address \<Rightarrow> address \<Rightarrow> panic + unit" where
  "checkBeneficiary env t beneficiary receiver =
     (if NetworkVersion env \<ge> Version7
      then (case normalizeAddress env t beneficiary of
              None \<Rightarrow> Inl OtherPanic
            | Some (beneficiaryID, found) \<Rightarrow>
                if \<not> found then Inl (ExecutionPanic SysErrorIllegalArgument)
                else if beneficiaryID = receiver then Inl (ExecutionPanic SysErrorIllegalArgument)
                else Inr ())
      else Inr ())"

definition DeleteActor ::
  "'t vmenv \<Rightarrow> invocationContext \<Rightarrow> address \<Rightarrow> 't machine \<Rightarrow> (panic + unit) \<times> 't machine"
where
  "DeleteActor env ctx beneficiary vm =
     (let receiver = To (originMsg ctx) in
      case Charge (gasTank vm) (OnDeleteActor env) of
        Inl e \<Rightarrow> (Inl e, vm)
      | Inr g \<Rightarrow>
          let vm1 = vm\<lparr>gasTank := g\<rparr> in
          (case State_GetActor env (State vm1) receiver of
             Inl ErrActorNotFound \<Rightarrow> (Inl (ExecutionPanic SysErrorIllegalActor), vm1)
           | Inl ErrOther \<Rightarrow> (Inl OtherPanic, vm1)
           | Inr None \<Rightarrow> (Inl (ExecutionPanic SysErrorIllegalActor), vm1)
           | Inr (Some receiverActor) \<Rightarrow>
               (case (if Balance receiverActor \<noteq> 0
                      then (case checkBeneficiary env (State vm1) beneficiary receiver of
                              Inl e \<Rightarrow> Inl e
                            | Inr u \<Rightarrow>
                                transfer env (State vm1) receiver beneficiary
                                  (Balance receiverActor) (NetworkVersion env))
                      else Inr (State vm1)) of
                  Inl e \<Rightarrow> (Inl e, vm1)
                | Inr t \<Rightarrow>
                    (case State_DeleteActor env t receiver of
                       Inl e \<Rightarrow> (Inl OtherPanic, vm1\<lparr>State := t\<rparr>)
                     | Inr t' \<Rightarrow>
                         (Inr (), vm1\<lparr>State := t',
                                      gasTank := snd (TryCharge (gasTank vm1) gasOnActorExec)\<rparr>)))))"

subsection \<open>Nested invocations\<close>

text \<open>\<^verbatim>\<open>invoke\<close>, \<^verbatim>\<open>resolveTarget\<close>, \<^verbatim>\<open>Send\<close> and the method bodies call each other,
  and nothing in these files bounds the recursion below network version 6. The recursion
  is cut by a fuel counter at \<^verbatim>\<open>invoke\<close>: the functions that start a nested invocation
  take the \<^verbatim>\<open>invoke\<close> of the remaining fuel as their first argument, and \<open>None\<close> means
  that the fuel ran out. The result of an invocation is \<open>Inr (ret, errcode)\<close> when
  \<^verbatim>\<open>invoke\<close> returns, with \<open>ret = None\<close> for a nil slice, and \<open>Inl\<close> when a panic leaves
  \<^verbatim>\<open>invoke\<close>.\<close>

type_synonym 't invoke_fn =
  "invocationContext \<Rightarrow> 't machine
     \<Rightarrow> ((panic + bytes option \<times> exitcode) \<times> invocationContext \<times> 't machine) option"

definition Send ::
  "'t invoke_fn \<Rightarrow> 't vmenv \<Rightarrow> invocationContext \<Rightarrow> address \<Rightarrow> 64 word \<Rightarrow> params
     \<Rightarrow> int option \<Rightarrow> (bytes \<Rightarrow> bool) \<Rightarrow> 't machine
     \<Rightarrow> ((panic + exitcode \<times> bytes) \<times> 't machine) option"
where
  "Send nested env ctx toAddr methodNum ps val out vm =
     (if \<not> allowSideEffects ctx then Some (Inl (ExecutionPanic SysErrorIllegalActor), vm)
      else
        let newMsg = \<lparr>From = To (msg ctx), To = toAddr, Value = val, Method = methodNum,
                      Params = ps\<rparr> in
        (case newInvocationContext env vm newMsg (Some ctx) of
           Inl e \<Rightarrow> Some (Inl e, vm)
         | Inr newCtx \<Rightarrow>
             (case nested newCtx vm of
                None \<Rightarrow> None
              | Some (Inl e, newCtx', vm') \<Rightarrow> Some (Inl e, vm')
              | Some (Inr (ret, code), newCtx', vm') \<Rightarrow>
                  if code = 0 then
                    let vm'' = vm'\<lparr>gasTank := snd (TryCharge (gasTank vm') gasOnActorExec)\<rparr>;
                        rd = (case ret of None \<Rightarrow> [] | Some b \<Rightarrow> b) in
                    if \<not> out rd then Some (Inl (ExecutionPanic ErrSerialization), vm'')
                    else Some (Inr (code, rd), vm'')
                  else Some (Inr (code, []), vm'))))"

definition resolveTarget ::
  "'t invoke_fn \<Rightarrow> 't vmenv \<Rightarrow> invocationContext \<Rightarrow> address \<Rightarrow> 't machine
     \<Rightarrow> ((panic + Actor option \<times> address) \<times> 't machine) option"
where
  "resolveTarget nested env ctx target vm =
     (case State_GetActor env (State vm) init_Address of
        Inl e \<Rightarrow> Some (Inl OtherPanic, vm)
      | Inr None \<Rightarrow> Some (Inl (ExecutionPanic SysErrSenderInvalid), vm)
      | Inr (Some initActorEntry) \<Rightarrow>
          if target = init_Address then Some (Inr (Some initActorEntry, target), vm)
          else
          (case init_Load env initActorEntry of
             Inl e \<Rightarrow> Some (Inl OtherPanic, vm)
           | Inr state \<Rightarrow>
          (case State_GetActor env (State vm) target of
             Inl e \<Rightarrow> Some (Inl OtherPanic, vm)
           | Inr None \<Rightarrow>
               (case Charge (gasTank vm) (OnCreateActor env) of
                  Inl e \<Rightarrow> Some (Inl e, vm)
                | Inr g \<Rightarrow>
               (case State_RegisterNewAddress env (State vm) target of
                  Inl e \<Rightarrow> Some (Inl OtherPanic, vm\<lparr>gasTank := g\<rparr>)
                | Inr (targetIDAddr, t) \<Rightarrow>
                    let vm2 = vm\<lparr>gasTank := g, State := t\<rparr> in
                    if Protocol target \<noteq> SECP256K1 \<and> Protocol target \<noteq> BLS
                    then Some (Inl (ExecutionPanic SysErrInvalidReceiver), vm2)
                    else
                    (case VersionForNetwork env (NetworkVersion env) of
                       Inl e \<Rightarrow> Some (Inl OtherPanic, vm2)
                     | Inr ver \<Rightarrow>
                    (case GetActorCodeID_AccountKey env ver of
                       None \<Rightarrow> Some (Inl OtherPanic, vm2)
                     | Some actorCode \<Rightarrow>
                    (case CreateActor env ctx actorCode targetIDAddr vm2 of
                       (Inl e, vm3) \<Rightarrow> Some (Inl e, vm3)
                     | (Inr u, vm3) \<Rightarrow>
                         let newMsg = \<lparr>From = SystemActorAddr, To = targetIDAddr,
                                       Value = Some 0, Method = MethodConstructor,
                                       Params = ParamsObj (ObjAddress target)\<rparr> in
                         (case newInvocationContext env vm3 newMsg (Some ctx) of
                            Inl e \<Rightarrow> Some (Inl e, vm3)
                          | Inr newCtx \<Rightarrow>
                              (case nested newCtx vm3 of
                                 None \<Rightarrow> None
                               | Some (Inl e, newCtx', vm4) \<Rightarrow> Some (Inl e, vm4)
                               | Some (Inr (ret, code), newCtx', vm4) \<Rightarrow>
                                   if IsError code then Some (Inl (ExecutionPanic code), vm4)
                                   else
                                   (case State_GetActor env (State vm4) target of
                                      Inl e \<Rightarrow> Some (Inl OtherPanic, vm4)
                                    | Inr targetActor \<Rightarrow>
                                        Some (Inr (targetActor, targetIDAddr), vm4)))))))))
           | Inr (Some a) \<Rightarrow>
               (case state target of
                  Inl e \<Rightarrow> Some (Inl OtherPanic, vm)
                | Inr None \<Rightarrow> Some (Inl OtherPanic, vm)
                | Inr (Some targetIDAddr) \<Rightarrow>
                    (case State_GetActor env (State vm) targetIDAddr of
                       Inl e \<Rightarrow> Some (Inl OtherPanic, vm)
                     | Inr None \<Rightarrow> Some (Inl (ExecutionPanic SysErrInvalidReceiver), vm)
                     | Inr (Some targetActor) \<Rightarrow>
                         Some (Inr (Some targetActor, targetIDAddr), vm))))))"

subsection \<open>Running a method body\<close>

text \<open>\<^verbatim>\<open>ctx.State()\<close> returns the frame's state handle, a nil interface outside a
  dispatched method; a call on it then panics.\<close>

definition State_of :: "invocationContext \<Rightarrow> panic + unit" where
  "State_of ctx = (if stateHandle ctx then Inr () else Inl OtherPanic)"

type_synonym 't body_result =
  "((panic + retval) \<times> invocationContext \<times> 't machine) option"

primrec run ::
  "'t invoke_fn \<Rightarrow> 't vmenv \<Rightarrow> prog \<Rightarrow> invocationContext \<Rightarrow> 't machine \<Rightarrow> 't body_result"
where
  "run nested env (Return r) = (\<lambda>ctx vm. Some (Inr r, ctx, vm))"
| "run nested env (Abort c) = (\<lambda>ctx vm. Some (Inl (ExecutionPanic c), ctx, vm))"
| "run nested env Panic = (\<lambda>ctx vm. Some (Inl OtherPanic, ctx, vm))"
| "run nested env (CallValidateCaller pattern k) = (\<lambda>ctx vm.
     case ValidateCaller env pattern ctx vm of
       (Inl e, ctx', vm') \<Rightarrow> Some (Inl e, ctx', vm')
     | (Inr u, ctx', vm') \<Rightarrow> run nested env k ctx' vm')"
| "run nested env (CallSend toAddr methodNum ps val out k) = (\<lambda>ctx vm.
     case Send nested env ctx toAddr methodNum ps val out vm of
       None \<Rightarrow> None
     | Some (Inl e, vm') \<Rightarrow> Some (Inl e, ctx, vm')
     | Some (Inr (c, ret), vm') \<Rightarrow> run nested env (k c ret) ctx vm')"
| "run nested env (CallCreateActor codeID addr k) = (\<lambda>ctx vm.
     case CreateActor env ctx codeID addr vm of
       (Inl e, vm') \<Rightarrow> Some (Inl e, ctx, vm')
     | (Inr u, vm') \<Rightarrow> run nested env k ctx vm')"
| "run nested env (CallDeleteActor beneficiary k) = (\<lambda>ctx vm.
     case DeleteActor env ctx beneficiary vm of
       (Inl e, vm') \<Rightarrow> Some (Inl e, ctx, vm')
     | (Inr u, vm') \<Rightarrow> run nested env k ctx vm')"
| "run nested env (CallNewActorAddress k) = (\<lambda>ctx vm.
     case NewActorAddress env ctx vm of
       (Inl e, vm') \<Rightarrow> Some (Inl e, ctx, vm')
     | (Inr a, vm') \<Rightarrow> run nested env (k a) ctx vm')"
| "run nested env (CallBalance k) = (\<lambda>ctx vm.
     case Balance_of env ctx vm of
       Inl e \<Rightarrow> Some (Inl e, ctx, vm)
     | Inr b \<Rightarrow> run nested env (k b) ctx vm)"
| "run nested env (CallMessage k) = (\<lambda>ctx vm. run nested env (k (msg ctx)) ctx vm)"
| "run nested env (CallAllowSideEffects allow k) = (\<lambda>ctx vm.
     case State_of ctx of
       Inl e \<Rightarrow> Some (Inl e, ctx, vm)
     | Inr u \<Rightarrow> run nested env k (AllowSideEffects allow ctx) vm)"
| "run nested env (CallStateCreate ob k) = (\<lambda>ctx vm.
     case State_of ctx of
       Inl e \<Rightarrow> Some (Inl e, ctx, vm)
     | Inr u \<Rightarrow>
         (case Create env ctx ob vm of
            (Inl e, vm') \<Rightarrow> Some (Inl e, ctx, vm')
          | (Inr c, vm') \<Rightarrow> run nested env (k c) ctx vm'))"
| "run nested env (CallStateLoad k) = (\<lambda>ctx vm.
     case State_of ctx of
       Inl e \<Rightarrow> Some (Inl e, ctx, vm)
     | Inr u \<Rightarrow>
         (case Load env ctx vm of
            (Inl e, vm') \<Rightarrow> Some (Inl e, ctx, vm')
          | (Inr c, vm') \<Rightarrow> run nested env (k c) ctx vm'))"
| "run nested env (CallStateReplace expected ob k) = (\<lambda>ctx vm.
     case State_of ctx of
       Inl e \<Rightarrow> Some (Inl e, ctx, vm)
     | Inr u \<Rightarrow>
         (case Replace env ctx expected ob vm of
            (Inl e, vm') \<Rightarrow> Some (Inl e, ctx, vm')
          | (Inr c, vm') \<Rightarrow> run nested env (k c) ctx vm'))"

subsection \<open>The dispatcher\<close>

text \<open>\<^verbatim>\<open>actorDispatcher.signature\<close>. The method number is a \<^verbatim>\<open>uint64\<close>; the bound
  check compares \<^verbatim>\<open>len(exports)\<close> with \<^verbatim>\<open>(int)(methodIdx)\<close>, which is negative from
  \<open>2 ^ 63\<close> on, and then \<^verbatim>\<open>exports[methodIdx]\<close> panics.\<close>

definition signature :: "actorDispatcher \<Rightarrow> 64 word \<Rightarrow> panic + (ExcuteError + method_entry)" where
  "signature d methodID =
     (let exports = Exports d in
      if int (length exports) \<le> sint methodID
      then Inr (Inl (NewExcuteError SysErrInvalidMethod))
      else if length exports \<le> unat methodID then Inl OtherPanic
      else (case exports ! unat methodID of
              None \<Rightarrow> Inr (Inl (NewExcuteError SysErrInvalidMethod))
            | Some entry \<Rightarrow> Inr (Inr entry)))"

text \<open>The closure \<^verbatim>\<open>parserByte\<close> of \<^verbatim>\<open>Dispatch\<close>.\<close>

definition parserByte :: "method_entry \<Rightarrow> nat \<Rightarrow> bytes \<Rightarrow> ExcuteError + obj" where
  "parserByte m nvk raw =
     (case ArgInterface m raw of
        None \<Rightarrow> Inl (NewExcuteError (if nvk < Version7 then 1 else ErrSerialization))
      | Some ob \<Rightarrow> Inr ob)"

text \<open>The second argument of the call: the \<^verbatim>\<open>switch t := arg1.(type)\<close>.\<close>

definition buildArgs :: "method_entry \<Rightarrow> nat \<Rightarrow> params \<Rightarrow> ExcuteError + obj" where
  "buildArgs m nvk arg1 =
     (case arg1 of
        ParamsNil \<Rightarrow> Inr (ArgNil m)
      | ParamsBytes t \<Rightarrow> parserByte m nvk t
      | ParamsCBORBytes2 t \<Rightarrow> parserByte m nvk t
      | ParamsCBORBytes3 t \<Rightarrow> parserByte m nvk t
      | ParamsCBORBytes t \<Rightarrow> parserByte m nvk t
      | ParamsObj ob \<Rightarrow> Inr ob)"

text \<open>What \<^verbatim>\<open>Dispatch\<close> makes of the value the method returned. An empty
  \<^verbatim>\<open>bytes.Buffer\<close> gives a nil slice.\<close>

definition encodeReturn :: "retval \<Rightarrow> panic + bytes option \<times> ExcuteError option" where
  "encodeReturn out =
     (case out of
        RetNothing \<Rightarrow> Inr (None, None)
      | RetNil \<Rightarrow> Inr (None, None)
      | RetNotNillable \<Rightarrow> Inl OtherPanic
      | RetBytes ret \<Rightarrow> Inr (Some ret, None)
      | RetEmptyValue \<Rightarrow> Inr (Some [], None)
      | RetMarshaler None \<Rightarrow> Inr (Some [], Some (NewExcuteError SysErrSenderStateInvalid))
      | RetMarshaler (Some buf) \<Rightarrow> Inr (if buf = [] then None else Some buf, None)
      | RetOther \<Rightarrow> Inr (Some [], Some (NewExcuteError SysErrInvalidMethod)))"

type_synonym 't dispatch_result =
  "((panic + bytes option \<times> ExcuteError option) \<times> invocationContext \<times> 't machine) option"

definition Dispatch ::
  "'t invoke_fn \<Rightarrow> 't vmenv \<Rightarrow> actorDispatcher \<Rightarrow> 64 word \<Rightarrow> nat \<Rightarrow> invocationContext
     \<Rightarrow> params \<Rightarrow> 't machine \<Rightarrow> 't dispatch_result"
where
  "Dispatch nested env d methodNum nvk ctx arg1 vm =
     (case signature d methodNum of
        Inl e \<Rightarrow> Some (Inl e, ctx, vm)
      | Inr (Inl err) \<Rightarrow> Some (Inr (Some [], Some err), ctx, vm)
      | Inr (Inr m) \<Rightarrow>
          (case buildArgs m nvk arg1 of
             Inl err \<Rightarrow> Some (Inr (Some [], Some err), ctx, vm)
           | Inr arg \<Rightarrow>
               (case run nested env (Call m arg) ctx vm of
                  None \<Rightarrow> None
                | Some (Inl e, ctx', vm') \<Rightarrow> Some (Inl e, ctx', vm')
                | Some (Inr out, ctx', vm') \<Rightarrow>
                    (case encodeReturn out of
                       Inl e \<Rightarrow> Some (Inl e, ctx', vm')
                     | Inr r \<Rightarrow> Some (Inr r, ctx', vm')))))"

subsection \<open>\<^verbatim>\<open>invoke\<close>\<close>

text \<open>The steps of \<^verbatim>\<open>invoke\<close> that the source lists as pre-dispatch, up to and
  including the transfer of the funds the message carries: the sender must be an ID
  address, the target is resolved, the invocation is charged, the value is moved.\<close>

definition preDispatch ::
  "'t invoke_fn \<Rightarrow> 't vmenv \<Rightarrow> invocationContext \<Rightarrow> 't machine
     \<Rightarrow> ((panic + Actor option \<times> address) \<times> invocationContext \<times> 't machine) option"
where
  "preDispatch nested env ctx vm =
     (if Protocol (From (msg ctx)) \<noteq> ID then Some (Inl OtherPanic, ctx, vm)
      else
      (case resolveTarget nested env ctx (To (originMsg ctx)) vm of
         None \<Rightarrow> None
       | Some (Inl e, vm1) \<Rightarrow> Some (Inl e, ctx, vm1)
       | Some (Inr (toActor, toIDAddr), vm1) \<Rightarrow>
           let ctx1 = (if NetworkVersion env > Version3
                       then ctx\<lparr>msg := (msg ctx)\<lparr>To := toIDAddr\<rparr>\<rparr> else ctx) in
           (case Charge (gasTank vm1)
                   (OnMethodInvocation env (Value (originMsg ctx1)) (Method (originMsg ctx1))) of
              Inl e \<Rightarrow> Some (Inl e, ctx1, vm1)
            | Inr g \<Rightarrow>
                let vm2 = vm1\<lparr>gasTank := g\<rparr> in
                (case (case Value (originMsg ctx1) of
                         None \<Rightarrow> Inr (State vm2)
                       | Some v \<Rightarrow>
                           if v \<noteq> 0
                           then transfer env (State vm2) (From (msg ctx1)) toIDAddr v
                                  (NetworkVersion env)
                           else Inr (State vm2)) of
                   Inl e \<Rightarrow> Some (Inl e, ctx1, vm2)
                 | Inr t \<Rightarrow> Some (Inr (toActor, toIDAddr), ctx1, vm2\<lparr>State := t\<rparr>)))))"

text \<open>The body of \<^verbatim>\<open>invoke\<close> below its two \<^verbatim>\<open>defer\<close> statements. \<open>Inr ret\<close> is a
  normal return of \<^verbatim>\<open>(ret, exitcode.Ok)\<close>, \<open>Inl\<close> a panic on its way to the deferred
  handler. \<^verbatim>\<open>toActor.Code\<close> dereferences a pointer that \<^verbatim>\<open>resolveTarget\<close> may have
  left nil.\<close>

definition invoke_body ::
  "'t invoke_fn \<Rightarrow> 't vmenv \<Rightarrow> invocationContext \<Rightarrow> 't machine
     \<Rightarrow> ((panic + bytes option) \<times> invocationContext \<times> 't machine) option"
where
  "invoke_body nested env ctx vm =
     (case preDispatch nested env ctx vm of
        None \<Rightarrow> None
      | Some (Inl e, ctx1, vm3) \<Rightarrow> Some (Inl e, ctx1, vm3)
      | Some (Inr (toActor, toIDAddr), ctx1, vm3) \<Rightarrow>
          if Method (originMsg ctx1) = MethodSend then Some (Inr None, ctx1, vm3)
          else
          (case toActor of
             None \<Rightarrow> Some (Inl OtherPanic, ctx1, vm3)
           | Some a \<Rightarrow>
          (case getActorImpl env (Code a) of
             Inl e \<Rightarrow> Some (Inl e, ctx1, vm3)
           | Inr actorImpl \<Rightarrow>
               let ctx2 = ctx1\<lparr>stateHandle := True\<rparr> in
               (case Dispatch nested env actorImpl (Method (originMsg ctx2))
                       (NetworkVersion env) ctx2 (Params (originMsg ctx2)) vm3 of
                  None \<Rightarrow> None
                | Some (Inl e, ctx3, vm4) \<Rightarrow> Some (Inl e, ctx3, vm4)
                | Some (Inr (ret, Some extErr), ctx3, vm4) \<Rightarrow>
                    Some (Inl (ExecutionPanic (ExitCode extErr)), ctx3, vm4)
                | Some (Inr (ret, None), ctx3, vm4) \<Rightarrow>
                    if \<not> isCallerValidated ctx3
                    then Some (Inl (ExecutionPanic SysErrorIllegalActor), ctx3, vm4)
                    else Some (Inr ret, ctx3\<lparr>stateHandle := False\<rparr>, vm4)))))"

text \<open>\<^verbatim>\<open>invoke\<close> with its deferred calls. A failing \<^verbatim>\<open>snapshot\<close> panics before the
  handler is installed; the handler reverts, panics again when \<^verbatim>\<open>revert\<close> fails, and
  otherwise turns an \<^verbatim>\<open>ExecutionPanic\<close> into its code and any other panic into
  \<^verbatim>\<open>1\<close>; \<^verbatim>\<open>clearSnapshot\<close> runs last on every path below the first \<^verbatim>\<open>defer\<close>.\<close>

definition invoke_step :: "'t invoke_fn \<Rightarrow> 't vmenv \<Rightarrow> 't invoke_fn" where
  "invoke_step nested env ctx vm =
     (case snapshot vm of
        Inl err \<Rightarrow> Some (Inl OtherPanic, ctx, vm)
      | Inr vm0 \<Rightarrow>
          (case invoke_body nested env ctx vm0 of
             None \<Rightarrow> None
           | Some (Inr ret, ctx', vm1) \<Rightarrow> Some (Inr (ret, Ok), ctx', clearSnapshot vm1)
           | Some (Inl r, ctx', vm1) \<Rightarrow>
               (case revert vm1 of
                  Inl err \<Rightarrow> Some (Inl OtherPanic, ctx', clearSnapshot vm1)
                | Inr vm2 \<Rightarrow>
                    (case r of
                       ExecutionPanic c \<Rightarrow> Some (Inr (Some [], c), ctx', clearSnapshot vm2)
                     | OtherPanic \<Rightarrow> Some (Inr (Some [], 1), ctx', clearSnapshot vm2)))))"

primrec invoke :: "nat \<Rightarrow> 't vmenv \<Rightarrow> 't invoke_fn" where
  "invoke 0 env = (\<lambda>ctx vm. None)"
| "invoke (Suc fuel) env = invoke_step (invoke fuel env) env"

subsection \<open>Observers used to state the properties\<close>

text \<open>The number of \<^verbatim>\<open>ValidateCaller\<close> calls a method body makes in its own frame
  when it is run: the traversal of \<open>run\<close>, counting the \<open>CallValidateCaller\<close> nodes it
  reaches, the failing one included.\<close>

primrec validations ::
  "'t invoke_fn \<Rightarrow> 't vmenv \<Rightarrow> prog \<Rightarrow> invocationContext \<Rightarrow> 't machine \<Rightarrow> nat"
where
  "validations nested env (Return r) = (\<lambda>ctx vm. 0)"
| "validations nested env (Abort c) = (\<lambda>ctx vm. 0)"
| "validations nested env Panic = (\<lambda>ctx vm. 0)"
| "validations nested env (CallValidateCaller pattern k) = (\<lambda>ctx vm.
     case ValidateCaller env pattern ctx vm of
       (Inl e, ctx', vm') \<Rightarrow> 1
     | (Inr u, ctx', vm') \<Rightarrow> 1 + validations nested env k ctx' vm')"
| "validations nested env (CallSend toAddr methodNum ps val out k) = (\<lambda>ctx vm.
     case Send nested env ctx toAddr methodNum ps val out vm of
       None \<Rightarrow> 0
     | Some (Inl e, vm') \<Rightarrow> 0
     | Some (Inr (c, ret), vm') \<Rightarrow> validations nested env (k c ret) ctx vm')"
| "validations nested env (CallCreateActor codeID addr k) = (\<lambda>ctx vm.
     case CreateActor env ctx codeID addr vm of
       (Inl e, vm') \<Rightarrow> 0
     | (Inr u, vm') \<Rightarrow> validations nested env k ctx vm')"
| "validations nested env (CallDeleteActor beneficiary k) = (\<lambda>ctx vm.
     case DeleteActor env ctx beneficiary vm of
       (Inl e, vm') \<Rightarrow> 0
     | (Inr u, vm') \<Rightarrow> validations nested env k ctx vm')"
| "validations nested env (CallNewActorAddress k) = (\<lambda>ctx vm.
     case NewActorAddress env ctx vm of
       (Inl e, vm') \<Rightarrow> 0
     | (Inr a, vm') \<Rightarrow> validations nested env (k a) ctx vm')"
| "validations nested env (CallBalance k) = (\<lambda>ctx vm.
     case Balance_of env ctx vm of
       Inl e \<Rightarrow> 0
     | Inr b \<Rightarrow> validations nested env (k b) ctx vm)"
| "validations nested env (CallMessage k) = (\<lambda>ctx vm.
     validations nested env (k (msg ctx)) ctx vm)"
| "validations nested env (CallAllowSideEffects allow k) = (\<lambda>ctx vm.
     case State_of ctx of
       Inl e \<Rightarrow> 0
     | Inr u \<Rightarrow> validations nested env k (AllowSideEffects allow ctx) vm)"
| "validations nested env (CallStateCreate ob k) = (\<lambda>ctx vm.
     case State_of ctx of
       Inl e \<Rightarrow> 0
     | Inr u \<Rightarrow>
         (case Create env ctx ob vm of
            (Inl e, vm') \<Rightarrow> 0
          | (Inr c, vm') \<Rightarrow> validations nested env (k c) ctx vm'))"
| "validations nested env (CallStateLoad k) = (\<lambda>ctx vm.
     case State_of ctx of
       Inl e \<Rightarrow> 0
     | Inr u \<Rightarrow>
         (case Load env ctx vm of
            (Inl e, vm') \<Rightarrow> 0
          | (Inr c, vm') \<Rightarrow> validations nested env (k c) ctx vm'))"
| "validations nested env (CallStateReplace expected ob k) = (\<lambda>ctx vm.
     case State_of ctx of
       Inl e \<Rightarrow> 0
     | Inr u \<Rightarrow>
         (case Replace env ctx expected ob vm of
            (Inl e, vm') \<Rightarrow> 0
          | (Inr c, vm') \<Rightarrow> validations nested env (k c) ctx vm'))"

text \<open>What the proofs assume of the nested \<^verbatim>\<open>invoke\<close> and then establish for
  \<open>invoke_step\<close>: an invocation that returns leaves the stack of checkpoints as it found
  it, returns through its two results, and leaves the state tree as it found it when the
  exit code is not zero.\<close>

definition sound_invoke :: "'t invoke_fn \<Rightarrow> bool" where
  "sound_invoke f \<longleftrightarrow>
     (\<forall>ctx vm r ctx' vm'. f ctx vm = Some (r, ctx', vm') \<longrightarrow>
        snaps vm' = snaps vm \<and>
        (\<exists>ret c. r = Inr (ret, c) \<and> (c \<noteq> 0 \<longrightarrow> State vm' = State vm)))"

text \<open>The nested \<^verbatim>\<open>invoke\<close> returns on every frame one level below depth \<open>d\<close> that
  respects the depth limit.\<close>

definition children_total :: "'t invoke_fn \<Rightarrow> 't vmenv \<Rightarrow> 64 word \<Rightarrow> bool" where
  "children_total nested env d \<longleftrightarrow>
     (\<forall>c vm. depth c = d + 1 \<and> depth c \<le> MaxCallDepth env \<longrightarrow> nested c vm \<noteq> None)"

text \<open>The price list charges for every invocation and for every implicit account, does
  not pay for a deletion, and the actor storage never hands gas back.\<close>

definition gas_priced :: "'t vmenv \<Rightarrow> bool" where
  "gas_priced env \<longleftrightarrow>
     (\<forall>v m. 0 < OnMethodInvocation env v m) \<and> 0 < OnCreateActor env \<and> 0 \<le> OnDeleteActor env \<and>
     (\<forall>g ob c g'. StorePut env g ob = Inr (c, g') \<longrightarrow> GasAvailable g' \<le> GasAvailable g) \<and>
     (\<forall>g c f g'. StoreGet env g c = Inr (f, g') \<longrightarrow> GasAvailable g' \<le> GasAvailable g)"

definition gas_of :: "'t machine \<Rightarrow> int" where
  "gas_of vm = GasAvailable (gasTank vm)"

text \<open>An invocation that returns has not added gas to the tank.\<close>

definition gas_mono :: "'t invoke_fn \<Rightarrow> bool" where
  "gas_mono f \<longleftrightarrow>
     (\<forall>ctx vm r ctx' vm'. f ctx vm = Some (r, ctx', vm') \<longrightarrow> gas_of vm' \<le> gas_of vm)"

text \<open>The second function returns what the first returns, wherever the first returns.\<close>

definition extends :: "'t invoke_fn \<Rightarrow> 't invoke_fn \<Rightarrow> bool" where
  "extends f f' \<longleftrightarrow> (\<forall>c v. f c v \<noteq> None \<longrightarrow> f' c v = f c v)"

subsection \<open>A concrete instance\<close>

text \<open>A small state tree (a map from addresses to actors), one actor implementation and
  an environment over them, on which the theorems below are exercised. Actor 100 is the
  sender with a balance of 50; actors 101 and 102 run \<open>example_actor\<close>, with balances 0
  and 5.\<close>

definition example_record :: "cid \<Rightarrow> int \<Rightarrow> Actor" where
  "example_record c b =
     \<lparr>Code = c, Head = CidUndef, Nonce = 0, Balance = b, DelegatedAddress = None\<rparr>"

definition example_State :: "address \<Rightarrow> Actor option" where
  "example_State = map_of
     [(IDAddr 0, example_record (Cid 10) 0),
      (IDAddr 1, example_record (Cid 11) 0),
      (IDAddr 100, example_record (Cid 2) 50),
      (IDAddr 101, example_record (Cid 1) 0),
      (IDAddr 102, example_record (Cid 1) 5)]"

definition example_any :: CallerPattern where
  "example_any = (\<lambda>c a. Some True)"

definition example_nobody :: CallerPattern where
  "example_nobody = (\<lambda>c a. Some False)"

definition example_entry :: "prog \<Rightarrow> method_entry" where
  "example_entry body =
     \<lparr>ArgInterface = (\<lambda>raw. if raw = [] then None else Some (ObjData raw)),
      ArgNil = ObjData [],
      Call = (\<lambda>ob. body)\<rparr>"

text \<open>Method 1 validates the caller and returns; method 2 returns without validating;
  method 3 validates twice; method 4 validates, creates an actor and aborts with the
  code 33; method 5 creates an actor and panics; method 6 aborts with the code 0 and
  method 7 returns a value that \<^verbatim>\<open>Dispatch\<close> cannot encode, both without
  validating; method 8 validates and returns such a value.\<close>

definition example_actor :: actorDispatcher where
  "example_actor =
     \<lparr>dispatcher_code = Cid 1,
      Exports =
        [None,
         Some (example_entry (CallValidateCaller example_any (Return RetNil))),
         Some (example_entry (Return RetNil)),
         Some (example_entry (CallValidateCaller example_any
                 (CallValidateCaller example_any (Return RetNil)))),
         Some (example_entry (CallValidateCaller example_any
                 (CallCreateActor (Cid 1) (IDAddr 200) (Abort 33)))),
         Some (example_entry (CallCreateActor (Cid 1) (IDAddr 200) Panic)),
         Some (example_entry (Abort 0)),
         Some (example_entry (Return RetOther)),
         Some (example_entry (CallValidateCaller example_any (Return RetOther)))]\<rparr>"

definition example_env :: "nat \<Rightarrow> (address \<Rightarrow> Actor option) vmenv" where
  "example_env nv =
     \<lparr>NetworkVersion = nv,
      MaxCallDepth = 4096,
      normalizeAddress =
        (\<lambda>t a. Some (if Protocol a = ID then (a, True) else (Undef, False))),
      transfer = (\<lambda>t f r amount v.
         case t f of
           None \<Rightarrow> Inl (ExecutionPanic SysErrSenderInvalid)
         | Some fa \<Rightarrow>
             (case t r of
                None \<Rightarrow> Inl (ExecutionPanic SysErrInvalidReceiver)
              | Some ra \<Rightarrow>
                  if Balance fa < amount then Inl (ExecutionPanic SysErrInsufficientFunds)
                  else Inr (t(f \<mapsto> fa\<lparr>Balance := Balance fa - amount\<rparr>,
                              r \<mapsto> ra\<lparr>Balance := Balance ra + amount\<rparr>)))),
      getActorImpl = (\<lambda>c. if c = Cid 1 then Inr example_actor
                           else Inl (ExecutionPanic SysErrInvalidReceiver)),
      State_GetActor = (\<lambda>t a. Inr (t a)),
      State_SetActor = (\<lambda>t a act. Inr (t(a \<mapsto> act))),
      State_DeleteActor = (\<lambda>t a. case t a of None \<Rightarrow> Inl ErrActorNotFound
                                   | Some act \<Rightarrow> Inr (t(a := None))),
      State_RegisterNewAddress = (\<lambda>t a. Inr (IDAddr 1000, t)),
      init_Load = (\<lambda>act. Inr (\<lambda>a. Inr (if Protocol a = ID then Some a else None))),
      OnMethodInvocation = (\<lambda>v m. 1),
      OnCreateActor = 1,
      OnDeleteActor = 1,
      VersionForNetwork = (\<lambda>n. Inr 0),
      GetActorCodeID_AccountKey = (\<lambda>v. Some (Cid 2)),
      ResolveToDeterministicAddress = (\<lambda>t a. Inr a),
      MarshalCBOR =
        (\<lambda>a. Inr (case a of BLSAddr b \<Rightarrow> 3 # b | SECPAddr b \<Rightarrow> 1 # b | _ \<Rightarrow> [])),
      address_NewActorAddress = (\<lambda>b. Inr (ActorAddr b)),
      EmptyObjectCid = Cid 0,
      StorePut = (\<lambda>g ob. Inr (Cid 7, g)),
      StoreGet = (\<lambda>g c. Inr (True, g))\<rparr>"

definition example_msg :: "address \<Rightarrow> int \<Rightarrow> 64 word \<Rightarrow> VmMessage" where
  "example_msg t v m =
     \<lparr>From = IDAddr 100, To = t, Value = Some v, Method = m, Params = ParamsNil\<rparr>"

text \<open>A top-level frame for a message from actor 100.\<close>

definition example_ctx :: "address \<Rightarrow> int \<Rightarrow> 64 word \<Rightarrow> invocationContext" where
  "example_ctx t v m =
     \<lparr>originMsg = example_msg t v m, msg = example_msg t v m, isCallerValidated = False,
      depth = 0, allowSideEffects = True, stateHandle = False\<rparr>"

definition example_vm :: "int \<Rightarrow> (address \<Rightarrow> Actor option) machine" where
  "example_vm gas =
     \<lparr>State = example_State, snaps = [],
      gasTank = \<lparr>GasAvailable = gas, GasUsed = 0\<rparr>,
      topLevel = \<lparr>originatorStableAddress = BLSAddr [7], originatorCallSeq = 7,
                  newActorAddressCount = 0\<rparr>\<rparr>"

text \<open>The environment at network version 7 over a state tree that also finds actor 102
  under an actor address, the way \<^verbatim>\<open>vm.State\<close> looks up the ID of the address it is
  given.\<close>

definition example_LookupID :: "address \<Rightarrow> address" where
  "example_LookupID a = (if a = ActorAddr [2] then IDAddr 102 else a)"

definition example_env_robust :: "(address \<Rightarrow> Actor option) vmenv" where
  "example_env_robust =
     (example_env 7)
       \<lparr>normalizeAddress :=
          (\<lambda>t a. Some (if Protocol (example_LookupID a) = ID
                        then (example_LookupID a, True) else (Undef, False))),
        transfer :=
          (\<lambda>t f r amount v.
             transfer (example_env 7) t (example_LookupID f) (example_LookupID r) amount v),
        State_GetActor := (\<lambda>t a. Inr (t (example_LookupID a))),
        State_DeleteActor :=
          (\<lambda>t a. case t (example_LookupID a) of
                    None \<Rightarrow> Inl ErrActorNotFound
                  | Some act \<Rightarrow> Inr (t(example_LookupID a := None)))\<rparr>"

section \<open>Proofs\<close>

lemmas exitcode_defs =
  Ok_def SysErrSenderInvalid_def SysErrSenderStateInvalid_def SysErrInvalidMethod_def
  SysErrInvalidReceiver_def SysErrInsufficientFunds_def SysErrOutOfGas_def
  SysErrForbidden_def SysErrorIllegalActor_def SysErrorIllegalArgument_def
  ErrSerialization_def

lemmas version_defs = Version3_def Version6_def Version7_def

lemmas example_defs = example_record_def example_State_def example_any_def
  example_nobody_def example_entry_def example_actor_def example_env_def example_msg_def
  example_ctx_def example_vm_def

lemmas runtime_defs = newInvocationContext_def AllowSideEffects_def loadActor_def
  storeActor_def store_StorePut_def store_StoreGet_def Create_def Load_def Replace_def
  CallerCode_def CallerAddr_def IsMatch_def ValidateCaller_def Balance_of_def
  NewActorAddress_def CreateActor_def checkBeneficiary_def DeleteActor_def Send_def
  resolveTarget_def State_of_def signature_def parserByte_def buildArgs_def encodeReturn_def
  Dispatch_def preDispatch_def invoke_body_def invoke_step_def snapshot_def revert_def
  clearSnapshot_def Charge_def TryCharge_def gasOnActorExec_def Defined_def IsError_def
  SystemActorAddr_def init_Address_def MethodSend_def MethodConstructor_def

subsection \<open>The stack of checkpoints\<close>

text \<open>Nothing but \<^verbatim>\<open>invoke\<close> touches the stack, and a nested \<^verbatim>\<open>invoke\<close> that is
  sound leaves it as it was: every call a body can make preserves it.\<close>

lemma snaps_CreateActor: "CreateActor env ctx c a vm = (r, vm') \<Longrightarrow> snaps vm' = snaps vm"
  by (auto simp: CreateActor_def split: sum.splits option.splits if_splits)

lemma snaps_DeleteActor: "DeleteActor env ctx b vm = (r, vm') \<Longrightarrow> snaps vm' = snaps vm"
  by (auto simp: DeleteActor_def Let_def split: sum.splits option.splits if_splits error.splits)

lemma snaps_NewActorAddress: "NewActorAddress env ctx vm = (r, vm') \<Longrightarrow> snaps vm' = snaps vm"
  by (auto simp: NewActorAddress_def split: sum.splits)

lemma snaps_ValidateCaller: "ValidateCaller env p ctx vm = (r, ctx', vm') \<Longrightarrow> snaps vm' = snaps vm"
  by (auto simp: ValidateCaller_def split: option.splits if_splits)

lemma snaps_storeActor: "storeActor env ctx a vm = (r, vm') \<Longrightarrow> snaps vm' = snaps vm"
  by (auto simp: storeActor_def split: sum.splits)

lemma snaps_StorePut: "store_StorePut env ob vm = (r, vm') \<Longrightarrow> snaps vm' = snaps vm"
  by (auto simp: store_StorePut_def split: sum.splits)

lemma snaps_StoreGet: "store_StoreGet env c vm = (r, vm') \<Longrightarrow> snaps vm' = snaps vm"
  by (auto simp: store_StoreGet_def split: sum.splits)

lemma snaps_Create: "Create env ctx ob vm = (r, vm') \<Longrightarrow> snaps vm' = snaps vm"
  by (auto simp: Create_def split: sum.splits prod.splits if_splits
      dest!: snaps_StorePut snaps_storeActor)

lemma snaps_Load: "Load env ctx vm = (r, vm') \<Longrightarrow> snaps vm' = snaps vm"
  by (auto simp: Load_def split: sum.splits prod.splits if_splits dest!: snaps_StoreGet)

lemma snaps_Replace: "Replace env ctx ex ob vm = (r, vm') \<Longrightarrow> snaps vm' = snaps vm"
  by (auto simp: Replace_def split: sum.splits prod.splits if_splits
      dest!: snaps_StorePut snaps_storeActor)

lemma snaps_Send:
  assumes "sound_invoke nested"
    and "Send nested env ctx toAddr methodNum ps val out vm = Some (r, vm')"
  shows "snaps vm' = snaps vm"
  using assms unfolding sound_invoke_def Send_def Let_def
  by (fastforce split: sum.splits option.splits if_splits prod.splits)

lemma snaps_resolveTarget:
  assumes "sound_invoke nested"
    and "resolveTarget nested env ctx target vm = Some (r, vm')"
  shows "snaps vm' = snaps vm"
  using assms unfolding sound_invoke_def resolveTarget_def Let_def
  by (fastforce split: sum.splits option.splits if_splits prod.splits dest!: snaps_CreateActor)


lemma snaps_run:
  assumes "sound_invoke nested"
  shows "run nested env k ctx vm = Some (r, ctx', vm') \<Longrightarrow> snaps vm' = snaps vm"
proof (induction k arbitrary: ctx vm)
  case (CallValidateCaller p k)
  then show ?case
    by (auto split: sum.splits prod.splits dest!: snaps_ValidateCaller)
next
  case (CallSend toAddr methodNum ps val out k)
  then show ?case
    by (auto split: sum.splits prod.splits option.splits
        dest!: snaps_Send [OF assms] intro: rangeI) (metis rangeI)
next
  case (CallCreateActor c a k)
  then show ?case
    by (auto split: sum.splits prod.splits dest!: snaps_CreateActor)
next
  case (CallDeleteActor b k)
  then show ?case
    by (auto split: sum.splits prod.splits dest!: snaps_DeleteActor)
next
  case (CallNewActorAddress k)
  then show ?case
    by (auto split: sum.splits prod.splits dest!: snaps_NewActorAddress) (metis rangeI)
next
  case (CallBalance k)
  then show ?case
    by (auto split: sum.splits) (metis rangeI)
next
  case (CallMessage k)
  then show ?case
    by auto (metis rangeI)
next
  case (CallAllowSideEffects allow k)
  then show ?case
    by (auto split: sum.splits)
next
  case (CallStateCreate ob k)
  then show ?case
    by (auto split: sum.splits prod.splits dest!: snaps_Create) (metis rangeI)
next
  case (CallStateLoad k)
  then show ?case
    by (auto split: sum.splits prod.splits dest!: snaps_Load) (metis rangeI)
next
  case (CallStateReplace ex ob k)
  then show ?case
    by (auto split: sum.splits prod.splits dest!: snaps_Replace) (metis rangeI)
qed auto


lemma snaps_Dispatch:
  assumes "sound_invoke nested"
    and "Dispatch nested env d methodNum nvk ctx arg1 vm = Some (r, ctx', vm')"
  shows "snaps vm' = snaps vm"
  using assms(2) unfolding Dispatch_def
  by (auto split: sum.splits option.splits prod.splits dest!: snaps_run [OF assms(1)])

lemma snaps_preDispatch:
  assumes "sound_invoke nested"
    and "preDispatch nested env ctx vm = Some (r, ctx', vm')"
  shows "snaps vm' = snaps vm"
  using assms(2) unfolding preDispatch_def Let_def
  by (auto split: sum.splits option.splits prod.splits if_splits
      dest!: snaps_resolveTarget [OF assms(1)])

lemma snaps_invoke_body:
  assumes "sound_invoke nested"
    and "invoke_body nested env ctx vm = Some (r, ctx', vm')"
  shows "snaps vm' = snaps vm"
  using assms(2) unfolding invoke_body_def Let_def
  by (auto split: sum.splits option.splits prod.splits if_splits
      dest!: snaps_preDispatch [OF assms(1)] snaps_Dispatch [OF assms(1)])

lemma invoke_step_result:
  assumes "sound_invoke nested"
    and "invoke_body nested env ctx (vm\<lparr>snaps := State vm # snaps vm\<rparr>) = Some (r, ctx', vm1)"
  shows "invoke_step nested env ctx vm =
           Some (case r of
                   Inr ret \<Rightarrow> (Inr (ret, Ok), ctx', vm1\<lparr>snaps := snaps vm\<rparr>)
                 | Inl (ExecutionPanic c) \<Rightarrow>
                     (Inr (Some [], c), ctx', vm1\<lparr>State := State vm, snaps := snaps vm\<rparr>)
                 | Inl OtherPanic \<Rightarrow>
                     (Inr (Some [], 1), ctx', vm1\<lparr>State := State vm, snaps := snaps vm\<rparr>))"
proof -
  have s: "snaps vm1 = State vm # snaps vm"
    using snaps_invoke_body [OF assms] by simp
  show ?thesis
    using assms(2) s
    by (simp add: invoke_step_def snapshot_def revert_def clearSnapshot_def
        split: sum.splits panic.splits)
qed

lemma sound_invoke_step:
  assumes "sound_invoke nested"
  shows "sound_invoke (invoke_step nested env)"
  unfolding sound_invoke_def
proof (intro allI impI)
  fix ctx vm r ctx' vm'
  assume a: "invoke_step nested env ctx vm = Some (r, ctx', vm')"
  then obtain b c1 v1 where
    b: "invoke_body nested env ctx (vm\<lparr>snaps := State vm # snaps vm\<rparr>) = Some (b, c1, v1)"
    by (auto simp: invoke_step_def snapshot_def split: option.splits)
  show "snaps vm' = snaps vm \<and>
        (\<exists>ret c. r = Inr (ret, c) \<and> (c \<noteq> 0 \<longrightarrow> State vm' = State vm))"
    using a invoke_step_result [OF assms b]
    by (auto simp: Ok_def split: sum.splits panic.splits)
qed

lemma invoke_sound: "sound_invoke (invoke fuel env)"
proof (induction fuel)
  case 0
  show ?case by (simp add: sound_invoke_def)
next
  case (Suc fuel)
  then show ?case by (simp add: sound_invoke_step)
qed

lemma invoke_step_abort:
  assumes "invoke_body nested env ctx (vm\<lparr>snaps := State vm # snaps vm\<rparr>) = Some (Inl p, ctx', vm1)"
    and "snaps vm1 = State vm # snaps vm"
  shows "invoke_step nested env ctx vm =
           Some (Inr (Some [], case p of ExecutionPanic c \<Rightarrow> c | OtherPanic \<Rightarrow> 1), ctx',
                 vm1\<lparr>State := State vm, snaps := snaps vm\<rparr>)"
  using assms
  by (simp add: invoke_step_def snapshot_def revert_def clearSnapshot_def split: panic.splits)

subsection \<open>Termination under the depth limit\<close>

text \<open>From network version 6 on, a frame is only built up to \<^verbatim>\<open>MaxCallDepth\<close>, so
  the nesting of invocations is bounded.\<close>

lemma newInvocationContext_depth:
  assumes "newInvocationContext env vm mesg (Some p) = Inr c"
  shows "depth c = depth p + 1 \<and> (Version6 \<le> NetworkVersion env \<longrightarrow> depth c \<le> MaxCallDepth env)"
  using assms
  by (auto simp: newInvocationContext_def split: if_splits option.splits)

lemma total_child:
  assumes "children_total nested env (depth ctx)" and "Version6 \<le> NetworkVersion env"
    and "newInvocationContext env vm0 mesg (Some ctx) = Inr c"
  shows "\<exists>y. nested c vm = Some y"
proof -
  have "depth c = depth ctx + 1" and "depth c \<le> MaxCallDepth env"
    using newInvocationContext_depth [OF assms(3)] assms(2) by blast+
  then have "nested c vm \<noteq> None"
    using assms(1) unfolding children_total_def by blast
  then show ?thesis by blast
qed

lemma total_Send:
  assumes "children_total nested env (depth ctx)" and "Version6 \<le> NetworkVersion env"
  shows "Send nested env ctx toAddr methodNum ps val out vm \<noteq> None"
proof (cases "newInvocationContext env vm
         \<lparr>From = To (msg ctx), To = toAddr, Value = val, Method = methodNum, Params = ps\<rparr>
         (Some ctx)")
  case (Inl e)
  then show ?thesis by (simp add: Send_def)
next
  case (Inr c)
  obtain y where "nested c vm = Some y"
    using total_child [OF assms Inr] by blast
  with Inr show ?thesis
    by (simp add: Send_def Let_def split: prod.splits sum.splits)
qed

lemma resolveTarget_None:
  assumes "resolveTarget nested env ctx target vm = None"
  shows "\<exists>v0 mesg c v. newInvocationContext env v0 mesg (Some ctx) = Inr c \<and> nested c v = None"
  using assms unfolding resolveTarget_def Let_def
  by (auto split: sum.splits option.splits prod.splits if_splits)

lemma total_resolveTarget:
  assumes "children_total nested env (depth ctx)" and "Version6 \<le> NetworkVersion env"
  shows "resolveTarget nested env ctx target vm \<noteq> None"
proof
  assume "resolveTarget nested env ctx target vm = None"
  then obtain v0 mesg c v where
    "newInvocationContext env v0 mesg (Some ctx) = Inr c" and "nested c v = None"
    using resolveTarget_None by blast
  then show False
    using total_child [OF assms, of v0 mesg c v] by simp
qed

lemma depth_ValidateCaller: "ValidateCaller env p ctx vm = (r, ctx', vm') \<Longrightarrow> depth ctx' = depth ctx"
  by (auto simp: ValidateCaller_def split: option.splits if_splits)

lemma total_run:
  assumes "children_total nested env d" and "Version6 \<le> NetworkVersion env"
  shows "depth ctx = d \<Longrightarrow> run nested env k ctx vm \<noteq> None"
proof (induction k arbitrary: ctx vm)
  case (CallValidateCaller p k)
  then show ?case
    by (auto split: sum.splits prod.splits dest!: depth_ValidateCaller)
next
  case (CallSend toAddr methodNum ps val out k)
  have "Send nested env ctx toAddr methodNum ps val out vm \<noteq> None"
    using total_Send assms CallSend.prems by blast
  with CallSend show ?case
    by (auto split: sum.splits prod.splits option.splits; metis rangeI)
next
  case (CallAllowSideEffects allow k)
  then show ?case
    by (auto simp: AllowSideEffects_def split: sum.splits)
next
  case (CallCreateActor c a k)
  then show ?case by (auto split: sum.splits prod.splits)
next
  case (CallDeleteActor b k)
  then show ?case by (auto split: sum.splits prod.splits)
next
  case (CallNewActorAddress k)
  then show ?case by (auto split: sum.splits prod.splits; metis rangeI)
next
  case (CallBalance k)
  then show ?case by (auto split: sum.splits; metis rangeI)
next
  case (CallMessage k)
  then show ?case by (auto; metis rangeI)
next
  case (CallStateCreate ob k)
  then show ?case by (auto split: sum.splits prod.splits; metis rangeI)
next
  case (CallStateLoad k)
  then show ?case by (auto split: sum.splits prod.splits; metis rangeI)
next
  case (CallStateReplace ex ob k)
  then show ?case by (auto split: sum.splits prod.splits; metis rangeI)
qed auto

lemma depth_run:
  "run nested env k ctx vm = Some (r, ctx', vm') \<Longrightarrow> depth ctx' = depth ctx"
proof (induction k arbitrary: ctx vm)
  case (CallValidateCaller p k)
  then show ?case
    by (auto split: sum.splits prod.splits dest!: depth_ValidateCaller)
next
  case (CallSend toAddr methodNum ps val out k)
  then show ?case
    by (auto split: sum.splits prod.splits option.splits; metis rangeI)
next
  case (CallAllowSideEffects allow k)
  then show ?case
    by (fastforce simp: AllowSideEffects_def split: sum.splits)
next
  case (CallCreateActor c a k)
  then show ?case by (auto split: sum.splits prod.splits)
next
  case (CallDeleteActor b k)
  then show ?case by (auto split: sum.splits prod.splits)
next
  case (CallNewActorAddress k)
  then show ?case by (auto split: sum.splits prod.splits; metis rangeI)
next
  case (CallBalance k)
  then show ?case by (auto split: sum.splits; metis rangeI)
next
  case (CallMessage k)
  then show ?case by (auto; metis rangeI)
next
  case (CallStateCreate ob k)
  then show ?case by (auto split: sum.splits prod.splits; metis rangeI)
next
  case (CallStateLoad k)
  then show ?case by (auto split: sum.splits prod.splits; metis rangeI)
next
  case (CallStateReplace ex ob k)
  then show ?case by (auto split: sum.splits prod.splits; metis rangeI)
qed auto

lemma total_Dispatch:
  assumes "children_total nested env (depth ctx)" and "Version6 \<le> NetworkVersion env"
  shows "Dispatch nested env d methodNum nvk ctx arg1 vm \<noteq> None"
proof -
  have h: "\<And>k. run nested env k ctx vm \<noteq> None"
    using total_run [OF assms refl] by blast
  show ?thesis
    unfolding Dispatch_def
    by (simp add: h split: sum.splits option.splits prod.splits)
qed

lemma depth_preDispatch:
  "preDispatch nested env ctx vm = Some (r, ctx', vm') \<Longrightarrow> depth ctx' = depth ctx"
  by (auto simp: preDispatch_def Let_def split: sum.splits option.splits prod.splits if_splits)

lemma total_preDispatch:
  assumes "children_total nested env (depth ctx)" and "Version6 \<le> NetworkVersion env"
  shows "preDispatch nested env ctx vm \<noteq> None"
proof -
  have h: "\<And>t. resolveTarget nested env ctx t vm \<noteq> None"
    using total_resolveTarget [OF assms] by blast
  show ?thesis
    unfolding preDispatch_def Let_def
    by (simp add: h split: sum.splits option.splits prod.splits)
qed

lemma total_invoke_body:
  assumes "children_total nested env (depth ctx)" and "Version6 \<le> NetworkVersion env"
  shows "invoke_body nested env ctx vm \<noteq> None"
proof (cases "preDispatch nested env ctx vm")
  case None
  with total_preDispatch [OF assms] show ?thesis by blast
next
  case (Some y)
  obtain r c1 v1 where y: "y = (r, c1, v1)" by (cases y) auto
  have d: "depth c1 = depth ctx"
    using depth_preDispatch Some y by blast
  have h: "\<And>dd m n a v. Dispatch nested env dd m n (c1\<lparr>stateHandle := True\<rparr>) a v \<noteq> None"
    using total_Dispatch [of nested env "c1\<lparr>stateHandle := True\<rparr>"] assms d by simp
  show ?thesis
    unfolding invoke_body_def Let_def
    by (simp add: h Some y split: sum.splits option.splits prod.splits)
qed

lemma total_invoke_step:
  assumes "children_total nested env (depth ctx)" and "Version6 \<le> NetworkVersion env"
  shows "invoke_step nested env ctx vm \<noteq> None"
proof -
  have h: "\<And>v. invoke_body nested env ctx v \<noteq> None"
    using total_invoke_body [OF assms] by blast
  show ?thesis
    unfolding invoke_step_def snapshot_def
    by (simp add: h split: sum.splits option.splits prod.splits panic.splits)
qed

lemma unat_depth_Suc:
  fixes x :: "64 word"
  assumes "x + 1 \<le> m" and "x \<le> m" and "m + 1 \<noteq> 0"
  shows "unat (x + 1) = Suc (unat x)"
  by (metis add.commute assms(2,3) inc_less_eq_self_imp_top
    order_antisym_conv unatSuc word_coorder.extremum)

lemma total_invoke:
  assumes "Version6 \<le> NetworkVersion env" and "MaxCallDepth env + 1 \<noteq> 0"
  shows "depth ctx \<le> MaxCallDepth env \<Longrightarrow> unat (MaxCallDepth env) - unat (depth ctx) < fuel
           \<Longrightarrow> invoke fuel env ctx vm \<noteq> None"
proof (induction fuel arbitrary: ctx vm)
  case 0
  then show ?case by simp
next
  case (Suc fuel)
  have "children_total (invoke fuel env) env (depth ctx)"
    unfolding children_total_def
  proof (intro allI impI)
    fix c :: invocationContext and vm0 :: "'a machine"
    assume c: "depth c = depth ctx + 1 \<and> depth c \<le> MaxCallDepth env"
    then have "depth ctx + 1 \<le> MaxCallDepth env" by auto
    then have "unat (depth ctx + 1) = Suc (unat (depth ctx))"
      using Suc.prems(1) assms(2) by (rule unat_depth_Suc)
    with c have u: "unat (depth c) = Suc (unat (depth ctx))" by simp
    have "unat (depth c) \<le> unat (MaxCallDepth env)"
      using c by (auto simp: word_le_nat_alt)
    with u Suc.prems(2) have "unat (MaxCallDepth env) - unat (depth c) < fuel" by arith
    with c Suc.IH show "invoke fuel env c vm0 \<noteq> None" by blast
  qed
  then show ?case
    using total_invoke_step assms(1) by simp
qed

subsection \<open>Termination by gas\<close>

text \<open>Every nested invocation is started after a charge that costs gas, and nothing
  gives gas back: the gas available bounds the nesting.\<close>

lemma gas_Charge: "Charge g c = Inr g' \<Longrightarrow> GasAvailable g' = GasAvailable g - c \<and> c \<le> GasAvailable g"
  by (auto simp: Charge_def split: if_splits)

lemma gas_TryCharge0: "GasAvailable (snd (TryCharge g gasOnActorExec)) = GasAvailable g"
  by (simp add: TryCharge_def gasOnActorExec_def)

lemma gas_CreateActor: "CreateActor env ctx c a vm = (r, vm') \<Longrightarrow> gas_of vm' = gas_of vm"
  by (auto simp: CreateActor_def gas_of_def gas_TryCharge0 split: sum.splits option.splits if_splits)

lemma gas_DeleteActor:
  assumes "gas_priced env" and "DeleteActor env ctx b vm = (r, vm')"
  shows "gas_of vm' \<le> gas_of vm"
proof -
  have "0 \<le> OnDeleteActor env" using assms(1) by (simp add: gas_priced_def)
  then show ?thesis
    using assms(2)
    by (auto simp: DeleteActor_def Let_def gas_of_def gas_TryCharge0
        split: sum.splits option.splits if_splits error.splits dest!: gas_Charge)
qed

lemma gas_NewActorAddress: "NewActorAddress env ctx vm = (r, vm') \<Longrightarrow> gas_of vm' = gas_of vm"
  by (auto simp: NewActorAddress_def split: sum.splits)

lemma gas_ValidateCaller: "ValidateCaller env p ctx vm = (r, ctx', vm') \<Longrightarrow> gas_of vm' = gas_of vm"
  by (auto simp: ValidateCaller_def split: option.splits if_splits)

lemma gas_storeActor: "storeActor env ctx a vm = (r, vm') \<Longrightarrow> gas_of vm' = gas_of vm"
  by (auto simp: storeActor_def gas_of_def split: sum.splits)

lemma gas_StorePut:
  assumes "gas_priced env" and "store_StorePut env ob vm = (r, vm')"
  shows "gas_of vm' \<le> gas_of vm"
  using assms unfolding gas_priced_def store_StorePut_def gas_of_def
  by (fastforce split: sum.splits prod.splits)

lemma gas_StoreGet:
  assumes "gas_priced env" and "store_StoreGet env c vm = (r, vm')"
  shows "gas_of vm' \<le> gas_of vm"
  using assms unfolding gas_priced_def store_StoreGet_def gas_of_def
  by (fastforce split: sum.splits prod.splits)

lemma gas_Create:
  assumes "gas_priced env" and "Create env ctx ob vm = (r, vm')"
  shows "gas_of vm' \<le> gas_of vm"
  using assms(2)
  by (auto simp: Create_def split: sum.splits prod.splits if_splits
      dest!: gas_StorePut [OF assms(1)] gas_storeActor)

lemma gas_Load:
  assumes "gas_priced env" and "Load env ctx vm = (r, vm')"
  shows "gas_of vm' \<le> gas_of vm"
  using assms(2)
  by (auto simp: Load_def split: sum.splits prod.splits if_splits dest!: gas_StoreGet [OF assms(1)])

lemma gas_Replace:
  assumes "gas_priced env" and "Replace env ctx ex ob vm = (r, vm')"
  shows "gas_of vm' \<le> gas_of vm"
  using assms(2)
  by (auto simp: Replace_def split: sum.splits prod.splits if_splits
      dest!: gas_StorePut [OF assms(1)] gas_storeActor)

lemma gas_Send:
  assumes "gas_mono nested"
    and "Send nested env ctx toAddr methodNum ps val out vm = Some (r, vm')"
  shows "gas_of vm' \<le> gas_of vm"
  using assms unfolding gas_mono_def Send_def Let_def
  by (fastforce simp: gas_of_def gas_TryCharge0 split: sum.splits option.splits if_splits prod.splits)


lemma gas_resolveTarget:
  assumes "gas_priced env" and "gas_mono nested"
    and "resolveTarget nested env ctx target vm = Some (r, vm')"
  shows "gas_of vm' \<le> gas_of vm"
proof -
  have "0 < OnCreateActor env" using assms(1) by (simp add: gas_priced_def)
  then show ?thesis
    using assms(2,3) unfolding gas_mono_def resolveTarget_def Let_def
    by (fastforce simp: gas_of_def split: sum.splits option.splits if_splits prod.splits
        dest!: gas_CreateActor [unfolded gas_of_def] gas_Charge)
qed

lemma resolveTarget_None_gas:
  assumes "gas_priced env" and "resolveTarget nested env ctx target vm = None"
  shows "\<exists>c v. nested c v = None \<and> gas_of v < gas_of vm \<and> 0 < gas_of vm"
proof -
  have "0 < OnCreateActor env" using assms(1) by (simp add: gas_priced_def)
  then show ?thesis
    using assms(2) unfolding resolveTarget_def Let_def
    by (fastforce simp: gas_of_def split: sum.splits option.splits if_splits prod.splits
        dest!: gas_CreateActor [unfolded gas_of_def] gas_Charge)
qed

lemma Send_None:
  "Send nested env ctx toAddr methodNum ps val out vm = None \<Longrightarrow> \<exists>c. nested c vm = None"
  unfolding Send_def Let_def
  by (auto split: sum.splits option.splits if_splits prod.splits)


lemma gas_run:
  assumes "gas_priced env" and "gas_mono nested"
  shows "run nested env k ctx vm = Some (r, ctx', vm') \<Longrightarrow> gas_of vm' \<le> gas_of vm"
proof (induction k arbitrary: ctx vm)
  case (CallValidateCaller p k)
  then show ?case
    by (fastforce split: sum.splits prod.splits dest!: gas_ValidateCaller)
next
  case (CallSend toAddr methodNum ps val out k)
  show ?case
  proof (cases "Send nested env ctx toAddr methodNum ps val out vm")
    case None
    with CallSend.prems show ?thesis by simp
  next
    case (Some y)
    obtain r1 v1 where y: "y = (r1, v1)" by (cases y) auto
    have g: "gas_of v1 \<le> gas_of vm" using gas_Send [OF assms(2)] Some y by blast
    show ?thesis
    proof (cases r1)
      case (Inl e)
      with CallSend.prems Some y g show ?thesis by auto
    next
      case (Inr cb)
      obtain c b where cb: "cb = (c, b)" by (cases cb) auto
      have "run nested env (k c b) ctx v1 = Some (r, ctx', vm')"
        using CallSend.prems Some y Inr cb by simp
      then have "gas_of vm' \<le> gas_of v1"
        using CallSend.IH [of "k c" "k c b"] by blast
      with g show ?thesis by simp
    qed
  qed
next
  case (CallCreateActor c a k)
  then show ?case by (fastforce split: sum.splits prod.splits dest!: gas_CreateActor)
next
  case (CallDeleteActor b k)
  show ?case
  proof (cases "DeleteActor env ctx b vm")
    case (Pair r1 v1)
    have g: "gas_of v1 \<le> gas_of vm" using gas_DeleteActor [OF assms(1) Pair] .
    show ?thesis
    proof (cases r1)
      case (Inl e)
      with CallDeleteActor.prems Pair g show ?thesis by auto
    next
      case (Inr u)
      then have "run nested env k ctx v1 = Some (r, ctx', vm')"
        using CallDeleteActor.prems Pair by simp
      then have "gas_of vm' \<le> gas_of v1" using CallDeleteActor.IH by blast
      with g show ?thesis by simp
    qed
  qed
next
  case (CallNewActorAddress k)
  then show ?case
    by (auto split: sum.splits prod.splits dest!: gas_NewActorAddress; metis rangeI)
next
  case (CallBalance k)
  then show ?case by (auto split: sum.splits; metis rangeI)
next
  case (CallMessage k)
  then show ?case by (auto; metis rangeI)
next
  case (CallAllowSideEffects allow k)
  then show ?case by (fastforce split: sum.splits)
next
  case (CallStateCreate ob k)
  show ?case
  proof (cases "State_of ctx")
    case (Inl e)
    with CallStateCreate.prems show ?thesis by auto
  next
    case (Inr u)
    show ?thesis
    proof (cases "Create env ctx ob vm")
      case (Pair r1 v1)
      have g: "gas_of v1 \<le> gas_of vm" using gas_Create [OF assms(1) Pair] .
      show ?thesis
      proof (cases r1)
        case (Inl e)
        with CallStateCreate.prems Pair Inr g show ?thesis by auto
      next
        case (Inr c)
        then have "run nested env (k c) ctx v1 = Some (r, ctx', vm')"
          using CallStateCreate.prems Pair \<open>State_of ctx = Inr u\<close> by simp
        then have "gas_of vm' \<le> gas_of v1" using CallStateCreate.IH [of "k c"] by blast
        with g show ?thesis by simp
      qed
    qed
  qed
next
  case (CallStateLoad k)
  show ?case
  proof (cases "State_of ctx")
    case (Inl e)
    with CallStateLoad.prems show ?thesis by auto
  next
    case (Inr u)
    show ?thesis
    proof (cases "Load env ctx vm")
      case (Pair r1 v1)
      have g: "gas_of v1 \<le> gas_of vm" using gas_Load [OF assms(1) Pair] .
      show ?thesis
      proof (cases r1)
        case (Inl e)
        with CallStateLoad.prems Pair Inr g show ?thesis by auto
      next
        case (Inr c)
        then have "run nested env (k c) ctx v1 = Some (r, ctx', vm')"
          using CallStateLoad.prems Pair \<open>State_of ctx = Inr u\<close> by simp
        then have "gas_of vm' \<le> gas_of v1" using CallStateLoad.IH [of "k c"] by blast
        with g show ?thesis by simp
      qed
    qed
  qed
next
  case (CallStateReplace ex ob k)
  show ?case
  proof (cases "State_of ctx")
    case (Inl e)
    with CallStateReplace.prems show ?thesis by auto
  next
    case (Inr u)
    show ?thesis
    proof (cases "Replace env ctx ex ob vm")
      case (Pair r1 v1)
      have g: "gas_of v1 \<le> gas_of vm" using gas_Replace [OF assms(1) Pair] .
      show ?thesis
      proof (cases r1)
        case (Inl e)
        with CallStateReplace.prems Pair Inr g show ?thesis by auto
      next
        case (Inr c)
        then have "run nested env (k c) ctx v1 = Some (r, ctx', vm')"
          using CallStateReplace.prems Pair \<open>State_of ctx = Inr u\<close> by simp
        then have "gas_of vm' \<le> gas_of v1" using CallStateReplace.IH [of "k c"] by blast
        with g show ?thesis by simp
      qed
    qed
  qed
qed auto


lemma total_run_gas:
  assumes "gas_priced env" and "gas_mono nested"
    and tot: "\<And>c v. gas_of v \<le> G \<Longrightarrow> nested c v \<noteq> None"
  shows "gas_of vm \<le> G \<Longrightarrow> run nested env k ctx vm \<noteq> None"
proof (induction k arbitrary: ctx vm)
  case (CallValidateCaller p k)
  show ?case
  proof (cases "ValidateCaller env p ctx vm")
    case (fields r1 c1 v1)
    have "gas_of v1 \<le> G" using gas_ValidateCaller [OF fields] CallValidateCaller.prems by simp
    then have "run nested env k c1 v1 \<noteq> None" using CallValidateCaller.IH by blast
    with fields show ?thesis by (cases r1) auto
  qed
next
  case (CallSend toAddr methodNum ps val out k)
  show ?case
  proof (cases "Send nested env ctx toAddr methodNum ps val out vm")
    case None
    then obtain c where "nested c vm = None" using Send_None by blast
    with tot CallSend.prems show ?thesis by blast
  next
    case (Some y)
    obtain r1 v1 where y: "y = (r1, v1)" by (cases y) auto
    have g: "gas_of v1 \<le> G"
      using gas_Send [OF assms(2)] Some y CallSend.prems by fastforce
    show ?thesis
    proof (cases r1)
      case (Inl e)
      with Some y show ?thesis by simp
    next
      case (Inr cb)
      obtain c b where cb: "cb = (c, b)" by (cases cb) auto
      have "run nested env (k c b) ctx v1 \<noteq> None"
        using CallSend.IH [of "k c" "k c b"] g by blast
      with Some y Inr cb show ?thesis by simp
    qed
  qed
next
  case (CallCreateActor c a k)
  show ?case
  proof (cases "CreateActor env ctx c a vm")
    case (Pair r1 v1)
    have "gas_of v1 \<le> G" using gas_CreateActor [OF Pair] CallCreateActor.prems by simp
    then have "run nested env k ctx v1 \<noteq> None" using CallCreateActor.IH by blast
    with Pair show ?thesis by (cases r1) auto
  qed
next
  case (CallDeleteActor b k)
  show ?case
  proof (cases "DeleteActor env ctx b vm")
    case (Pair r1 v1)
    have "gas_of v1 \<le> G" using gas_DeleteActor [OF assms(1) Pair] CallDeleteActor.prems by simp
    then have "run nested env k ctx v1 \<noteq> None" using CallDeleteActor.IH by blast
    with Pair show ?thesis by (cases r1) auto
  qed
next
  case (CallNewActorAddress k)
  show ?case
  proof (cases "NewActorAddress env ctx vm")
    case (Pair r1 v1)
    have g: "gas_of v1 \<le> G" using gas_NewActorAddress [OF Pair] CallNewActorAddress.prems by simp
    show ?thesis
    proof (cases r1)
      case (Inl e)
      with Pair show ?thesis by simp
    next
      case (Inr a)
      have "run nested env (k a) ctx v1 \<noteq> None"
        using CallNewActorAddress.IH [of "k a"] g by blast
      with Pair Inr show ?thesis by simp
    qed
  qed
next
  case (CallBalance k)
  show ?case
  proof (cases "Balance_of env ctx vm")
    case (Inl e)
    then show ?thesis by simp
  next
    case (Inr b)
    have "run nested env (k b) ctx vm \<noteq> None"
      using CallBalance.IH [of "k b"] CallBalance.prems by blast
    with Inr show ?thesis by simp
  qed
next
  case (CallMessage k)
  have "run nested env (k (msg ctx)) ctx vm \<noteq> None"
    using CallMessage.IH [of "k (msg ctx)"] CallMessage.prems by blast
  then show ?case by simp
next
  case (CallAllowSideEffects allow k)
  have "run nested env k (AllowSideEffects allow ctx) vm \<noteq> None"
    using CallAllowSideEffects.IH CallAllowSideEffects.prems by blast
  then show ?case by (cases "State_of ctx") auto
next
  case (CallStateCreate ob k)
  show ?case
  proof (cases "State_of ctx")
    case (Inl e)
    then show ?thesis by simp
  next
    case (Inr u)
    show ?thesis
    proof (cases "Create env ctx ob vm")
      case (Pair r1 v1)
      have g: "gas_of v1 \<le> G" using gas_Create [OF assms(1) Pair] CallStateCreate.prems by simp
      show ?thesis
      proof (cases r1)
        case (Inl e)
        with Pair \<open>State_of ctx = Inr u\<close> show ?thesis by simp
      next
        case (Inr c)
        have "run nested env (k c) ctx v1 \<noteq> None"
          using CallStateCreate.IH [of "k c"] g by blast
        with Pair Inr \<open>State_of ctx = Inr u\<close> show ?thesis by simp
      qed
    qed
  qed
next
  case (CallStateLoad k)
  show ?case
  proof (cases "State_of ctx")
    case (Inl e)
    then show ?thesis by simp
  next
    case (Inr u)
    show ?thesis
    proof (cases "Load env ctx vm")
      case (Pair r1 v1)
      have g: "gas_of v1 \<le> G" using gas_Load [OF assms(1) Pair] CallStateLoad.prems by simp
      show ?thesis
      proof (cases r1)
        case (Inl e)
        with Pair \<open>State_of ctx = Inr u\<close> show ?thesis by simp
      next
        case (Inr c)
        have "run nested env (k c) ctx v1 \<noteq> None"
          using CallStateLoad.IH [of "k c"] g by blast
        with Pair Inr \<open>State_of ctx = Inr u\<close> show ?thesis by simp
      qed
    qed
  qed
next
  case (CallStateReplace ex ob k)
  show ?case
  proof (cases "State_of ctx")
    case (Inl e)
    then show ?thesis by simp
  next
    case (Inr u)
    show ?thesis
    proof (cases "Replace env ctx ex ob vm")
      case (Pair r1 v1)
      have g: "gas_of v1 \<le> G" using gas_Replace [OF assms(1) Pair] CallStateReplace.prems by simp
      show ?thesis
      proof (cases r1)
        case (Inl e)
        with Pair \<open>State_of ctx = Inr u\<close> show ?thesis by simp
      next
        case (Inr c)
        have "run nested env (k c) ctx v1 \<noteq> None"
          using CallStateReplace.IH [of "k c"] g by blast
        with Pair Inr \<open>State_of ctx = Inr u\<close> show ?thesis by simp
      qed
    qed
  qed
qed auto

lemma gas_Dispatch:
  assumes "gas_priced env" and "gas_mono nested"
    and "Dispatch nested env d methodNum nvk ctx arg1 vm = Some (r, ctx', vm')"
  shows "gas_of vm' \<le> gas_of vm"
  using assms(3) unfolding Dispatch_def
  by (auto split: sum.splits option.splits prod.splits dest!: gas_run [OF assms(1,2)])

lemma gas_preDispatch:
  assumes "gas_priced env" and "gas_mono nested"
    and "preDispatch nested env ctx vm = Some (r, ctx', vm')"
  shows "gas_of vm' \<le> gas_of vm \<and> ((\<exists>y. r = Inr y) \<longrightarrow> gas_of vm' < gas_of vm \<and> 0 < gas_of vm)"
proof (cases "Protocol (From (msg ctx)) = ID")
  case False
  with assms(3) show ?thesis by (auto simp: preDispatch_def)
next
  case True
  show ?thesis
  proof (cases "resolveTarget nested env ctx (To (originMsg ctx)) vm")
    case None
    with assms(3) True show ?thesis by (simp add: preDispatch_def)
  next
    case (Some y)
    obtain r1 v1 where y: "y = (r1, v1)" by (cases y) auto
    have g1: "gas_of v1 \<le> gas_of vm"
      using gas_resolveTarget [OF assms(1,2)] Some y by blast
    show ?thesis
    proof (cases r1)
      case (Inl e)
      with assms(3) True Some y g1 show ?thesis by (auto simp: preDispatch_def)
    next
      case (Inr at)
      obtain a tid where at: "at = (a, tid)" by (cases at) auto
      let ?cost = "OnMethodInvocation env (Value (originMsg ctx)) (Method (originMsg ctx))"
      have pos: "0 < ?cost" using assms(1) by (simp add: gas_priced_def)
      show ?thesis
      proof (cases "Charge (gasTank v1) ?cost")
        case (Inl e)
        with assms(3) True Some y Inr at g1 show ?thesis
          by (auto simp: preDispatch_def Let_def split: if_splits)
      next
        case (Inr g)
        have gg: "GasAvailable g = gas_of v1 - ?cost" "?cost \<le> gas_of v1"
          using gas_Charge [OF Inr] by (simp_all add: gas_of_def)
        have "gas_of vm' = GasAvailable g"
          using assms(3) True Some y \<open>r1 = Inr at\<close> at Inr
          by (auto simp: preDispatch_def Let_def gas_of_def
              split: if_splits sum.splits option.splits)
        with gg pos g1 show ?thesis by auto
      qed
    qed
  qed
qed

lemma total_invoke_step_gas:
  assumes "gas_priced env" and "gas_mono nested"
    and tot: "\<And>c v. 0 < gas_of vm \<Longrightarrow> gas_of v < gas_of vm \<Longrightarrow> nested c v \<noteq> None"
  shows "invoke_step nested env ctx vm \<noteq> None"
proof -
  let ?vm0 = "vm\<lparr>snaps := State vm # snaps vm\<rparr>"
  have g0: "gas_of ?vm0 = gas_of vm" by (simp add: gas_of_def)
  have rt: "resolveTarget nested env ctx (To (originMsg ctx)) ?vm0 \<noteq> None"
  proof
    assume "resolveTarget nested env ctx (To (originMsg ctx)) ?vm0 = None"
    from resolveTarget_None_gas [OF assms(1) this] obtain c v where
      "nested c v = None" "gas_of v < gas_of ?vm0" "0 < gas_of ?vm0" by blast
    with tot [of v c] g0 show False by simp
  qed
  have pd: "preDispatch nested env ctx ?vm0 \<noteq> None"
    by (simp add: rt preDispatch_def Let_def split: sum.splits option.splits prod.splits)
  then obtain r c1 v3 where p: "preDispatch nested env ctx ?vm0 = Some (r, c1, v3)"
    by (cases "preDispatch nested env ctx ?vm0") auto
  have ib: "invoke_body nested env ctx ?vm0 \<noteq> None"
  proof (cases r)
    case (Inl e)
    with p show ?thesis by (simp add: invoke_body_def)
  next
    case (Inr y)
    have lt: "gas_of v3 < gas_of vm" "0 < gas_of vm"
      using gas_preDispatch [OF assms(1,2) p] Inr g0 by auto
    have rn: "\<And>k c. run nested env k c v3 \<noteq> None"
    proof -
      fix k c
      show "run nested env k c v3 \<noteq> None"
      proof (rule total_run_gas [OF assms(1,2), of "gas_of v3"])
        fix c' :: invocationContext and v :: "'a machine"
        assume "gas_of v \<le> gas_of v3"
        with lt tot show "nested c' v \<noteq> None" by force
      qed simp
    qed
    have dn: "\<And>d m n c a. Dispatch nested env d m n c a v3 \<noteq> None"
      unfolding Dispatch_def
      by (simp add: rn split: sum.splits option.splits prod.splits)
    show ?thesis
      unfolding invoke_body_def Let_def
      by (simp add: dn p Inr split: sum.splits option.splits prod.splits)
  qed
  show ?thesis
    unfolding invoke_step_def snapshot_def
    by (simp add: ib split: sum.splits option.splits prod.splits panic.splits)
qed

lemma gas_invoke_step:
  assumes "gas_priced env" and "gas_mono nested"
  shows "gas_mono (invoke_step nested env)"
  unfolding gas_mono_def
proof (intro allI impI)
  fix ctx vm r ctx' vm'
  assume a: "invoke_step nested env ctx vm = Some (r, ctx', vm')"
  let ?vm0 = "vm\<lparr>snaps := State vm # snaps vm\<rparr>"
  from a obtain b c1 v1 where
    b: "invoke_body nested env ctx ?vm0 = Some (b, c1, v1)"
    and v: "gas_of vm' = gas_of v1"
    by (auto simp: invoke_step_def snapshot_def revert_def clearSnapshot_def gas_of_def
        split: option.splits sum.splits prod.splits panic.splits list.splits)
  have "gas_of v1 \<le> gas_of ?vm0"
    using b unfolding invoke_body_def Let_def
    by (auto split: sum.splits option.splits prod.splits if_splits
        dest!: gas_preDispatch [OF assms] gas_Dispatch [OF assms])
  with v show "gas_of vm' \<le> gas_of vm" by (simp add: gas_of_def)
qed

lemma gas_invoke:
  assumes "gas_priced env"
  shows "gas_mono (invoke fuel env)"
proof (induction fuel)
  case 0
  show ?case by (simp add: gas_mono_def)
next
  case (Suc fuel)
  then show ?case by (simp add: gas_invoke_step [OF assms])
qed

lemma total_invoke_gas:
  assumes "gas_priced env"
  shows "gas_of vm \<le> int fuel \<Longrightarrow> invoke (Suc fuel) env ctx vm \<noteq> None"
proof (induction fuel arbitrary: ctx vm)
  case 0
  have "invoke_step (invoke 0 env) env ctx vm \<noteq> None"
    using 0 by (intro total_invoke_step_gas [OF assms gas_invoke [OF assms]]) simp
  then show ?case by simp
next
  case (Suc fuel)
  have "invoke_step (invoke (Suc fuel) env) env ctx vm \<noteq> None"
  proof (rule total_invoke_step_gas [OF assms gas_invoke [OF assms]])
    fix c :: invocationContext and v :: "'a machine"
    assume "gas_of v < gas_of vm"
    with Suc.prems have "gas_of v \<le> int fuel" by simp
    then show "invoke (Suc fuel) env c v \<noteq> None" by (rule Suc.IH)
  qed
  then show ?case by simp
qed

lemma gas_priced_example: "gas_priced (example_env nv)"
  by (simp add: gas_priced_def example_env_def)

subsection \<open>More fuel, same result\<close>

text \<open>The fuel only cuts the recursion: an invocation that returns with some fuel
  returns the same with more.\<close>

lemma extends_resolveTarget:
  assumes "extends f f'"
    and r: "resolveTarget f env ctx target vm = Some y"
  shows "resolveTarget f' env ctx target vm = Some y"
proof -
  have e: "\<And>c v. f c v \<noteq> None \<Longrightarrow> f' c v = f c v"
    using assms(1) by (simp add: extends_def)
  show ?thesis
    using r unfolding resolveTarget_def Let_def
    by (auto simp: e split: sum.split_asm option.split_asm prod.split_asm if_split_asm)
qed

lemma extends_Send:
  assumes "extends f f'"
    and r: "Send f env ctx toAddr methodNum ps val out vm = Some y"
  shows "Send f' env ctx toAddr methodNum ps val out vm = Some y"
proof -
  have e: "\<And>c v. f c v \<noteq> None \<Longrightarrow> f' c v = f c v"
    using assms(1) by (simp add: extends_def)
  show ?thesis
    using r unfolding Send_def Let_def
    by (auto simp: e split: sum.split_asm option.split_asm prod.split_asm if_split_asm)
qed


lemma extends_run:
  assumes ext: "extends f f'"
  shows "run f env k ctx vm = Some y \<Longrightarrow> run f' env k ctx vm = Some y"
proof (induction k arbitrary: ctx vm)
  case (CallValidateCaller p k)
  then show ?case by (auto split: sum.split_asm prod.split_asm)
next
  case (CallSend toAddr methodNum ps val out k)
  from CallSend.prems obtain z where z: "Send f env ctx toAddr methodNum ps val out vm = Some z"
    by (auto split: option.split_asm)
  then have z': "Send f' env ctx toAddr methodNum ps val out vm = Some z"
    using extends_Send [OF ext] by blast
  obtain r1 v1 where zz: "z = (r1, v1)" by (cases z) auto
  show ?case
  proof (cases r1)
    case (Inl e)
    with CallSend.prems z z' zz show ?thesis by simp
  next
    case (Inr cb)
    obtain c b where cb: "cb = (c, b)" by (cases cb) auto
    have "run f env (k c b) ctx v1 = Some y"
      using CallSend.prems z zz Inr cb by simp
    then have "run f' env (k c b) ctx v1 = Some y"
      using CallSend.IH [of "k c" "k c b"] by blast
    with z' zz Inr cb show ?thesis by simp
  qed
next
  case (CallCreateActor c a k)
  then show ?case by (auto split: sum.split_asm prod.split_asm)
next
  case (CallDeleteActor b k)
  then show ?case by (auto split: sum.split_asm prod.split_asm)
next
  case (CallNewActorAddress k)
  then show ?case by (auto split: sum.split_asm prod.split_asm; metis rangeI)
next
  case (CallBalance k)
  then show ?case by (auto split: sum.split_asm; metis rangeI)
next
  case (CallMessage k)
  then show ?case by (auto; metis rangeI)
next
  case (CallAllowSideEffects allow k)
  then show ?case by (auto split: sum.split_asm)
next
  case (CallStateCreate ob k)
  then show ?case by (auto split: sum.split_asm prod.split_asm; metis rangeI)
next
  case (CallStateLoad k)
  then show ?case by (auto split: sum.split_asm prod.split_asm; metis rangeI)
next
  case (CallStateReplace ex ob k)
  then show ?case by (auto split: sum.split_asm prod.split_asm; metis rangeI)
qed auto

lemma extends_Dispatch:
  assumes ext: "extends f f'"
    and r: "Dispatch f env d methodNum nvk ctx arg1 vm = Some y"
  shows "Dispatch f' env d methodNum nvk ctx arg1 vm = Some y"
  using r unfolding Dispatch_def
  by (auto split: sum.split_asm option.split_asm prod.split_asm dest!: extends_run [OF ext])

lemma extends_preDispatch:
  assumes ext: "extends f f'"
    and r: "preDispatch f env ctx vm = Some y"
  shows "preDispatch f' env ctx vm = Some y"
  using r unfolding preDispatch_def Let_def
  by (auto split: sum.split_asm option.split_asm prod.split_asm if_split_asm
      dest!: extends_resolveTarget [OF ext])

lemma extends_invoke_body:
  assumes ext: "extends f f'"
    and r: "invoke_body f env ctx vm = Some y"
  shows "invoke_body f' env ctx vm = Some y"
  using r unfolding invoke_body_def Let_def
  by (auto split: sum.split_asm option.split_asm prod.split_asm if_split_asm
      dest!: extends_preDispatch [OF ext] extends_Dispatch [OF ext])

lemma extends_invoke_step:
  assumes ext: "extends f f'"
  shows "extends (invoke_step f env) (invoke_step f' env)"
  unfolding extends_def
proof (intro allI impI)
  fix c v
  assume "invoke_step f env c v \<noteq> None"
  then obtain y where y: "invoke_body f env c (v\<lparr>snaps := State v # snaps v\<rparr>) = Some y"
    by (auto simp: invoke_step_def snapshot_def split: option.split_asm)
  then have "invoke_body f' env c (v\<lparr>snaps := State v # snaps v\<rparr>) = Some y"
    using extends_invoke_body [OF ext] by blast
  with y show "invoke_step f' env c v = invoke_step f env c v"
    by (simp add: invoke_step_def snapshot_def)
qed

lemma extends_invoke_Suc: "extends (invoke fuel env) (invoke (Suc fuel) env)"
proof (induction fuel)
  case 0
  show ?case by (simp add: extends_def)
next
  case (Suc fuel)
  then show ?case using extends_invoke_step by fastforce
qed

lemma invoke_more_fuel:
  assumes "invoke fuel env ctx vm = Some y" and "fuel \<le> fuel'"
  shows "invoke fuel' env ctx vm = Some y"
  using assms(2,1)
proof (induction fuel' rule: dec_induct)
  case base
  then show ?case by simp
next
  case (step n)
  then have "invoke n env ctx vm = Some y" by simp
  then show ?case
    using extends_invoke_Suc [of n env] unfolding extends_def by fastforce
qed

subsection \<open>Counting validations\<close>

lemma validations_run:
  "run nested env k ctx vm = Some (res, ctx', vm') \<Longrightarrow>
     (isCallerValidated ctx \<longrightarrow>
        isCallerValidated ctx' \<and> validations nested env k ctx vm \<le> 1 \<and>
        (validations nested env k ctx vm = 1 \<longrightarrow> res = Inl (ExecutionPanic SysErrorIllegalActor)))
   \<and> (\<not> isCallerValidated ctx \<longrightarrow>
        validations nested env k ctx vm \<le> 2 \<and>
        (validations nested env k ctx vm = 0 \<longrightarrow> \<not> isCallerValidated ctx') \<and>
        (validations nested env k ctx vm = 2 \<longrightarrow> res = Inl (ExecutionPanic SysErrorIllegalActor)) \<and>
        (validations nested env k ctx vm = 1 \<longrightarrow> (\<exists>r. res = Inr r) \<longrightarrow> isCallerValidated ctx'))"
proof (induction k arbitrary: ctx vm)
  case (CallValidateCaller p k)
  show ?case
  proof (cases "isCallerValidated ctx")
    case True
    with CallValidateCaller.prems show ?thesis
      by (auto simp: ValidateCaller_def)
  next
    case False
    show ?thesis
    proof (cases "IsMatch p env ctx vm")
      case None
      with False CallValidateCaller.prems show ?thesis
        by (auto simp: ValidateCaller_def)
    next
      case (Some b)
      show ?thesis
      proof (cases b)
        case True
        have r: "run nested env k (ctx\<lparr>isCallerValidated := True\<rparr>) vm = Some (res, ctx', vm')"
          using CallValidateCaller.prems False Some True by (simp add: ValidateCaller_def)
        have v: "validations nested env (CallValidateCaller p k) ctx vm
                  = 1 + validations nested env k (ctx\<lparr>isCallerValidated := True\<rparr>) vm"
          using False Some True by (simp add: ValidateCaller_def)
        show ?thesis
          using CallValidateCaller.IH [OF r] False unfolding v by auto
      next
        case False
        with \<open>\<not> isCallerValidated ctx\<close> Some CallValidateCaller.prems show ?thesis
          by (auto simp: ValidateCaller_def)
      qed
    qed
  qed
next
  case (CallSend toAddr methodNum ps val out k)
  then show ?case
    by (auto split: sum.splits prod.splits option.splits; metis rangeI)
next
  case (CallCreateActor c a k)
  then show ?case by (auto split: sum.splits prod.splits)
next
  case (CallDeleteActor b k)
  then show ?case by (auto split: sum.splits prod.splits)
next
  case (CallNewActorAddress k)
  then show ?case by (auto split: sum.splits prod.splits; metis rangeI)
next
  case (CallBalance k)
  then show ?case by (auto split: sum.splits; metis rangeI)
next
  case (CallMessage k)
  then show ?case by (auto; metis rangeI)
next
  case (CallAllowSideEffects allow k)
  then show ?case
    by (auto simp: AllowSideEffects_def split: sum.splits)
next
  case (CallStateCreate ob k)
  then show ?case by (auto split: sum.splits prod.splits; metis rangeI)
next
  case (CallStateLoad k)
  then show ?case by (auto split: sum.splits prod.splits; metis rangeI)
next
  case (CallStateReplace ex ob k)
  then show ?case by (auto split: sum.splits prod.splits; metis rangeI)
qed auto


lemma preDispatch_frame:
  "preDispatch nested env ctx vm = Some (r, ctx1, vm1) \<Longrightarrow>
     isCallerValidated ctx1 = isCallerValidated ctx \<and> originMsg ctx1 = originMsg ctx"
  by (auto simp: preDispatch_def Let_def split: if_splits option.splits sum.splits prod.splits)

subsection \<open>Target resolution, address derivation\<close>

lemma preDispatch_getActorImpl:
  "preDispatch nested (env\<lparr>getActorImpl := g\<rparr>) ctx vm = preDispatch nested env ctx vm"
  by (simp add: preDispatch_def resolveTarget_def CreateActor_def newInvocationContext_def
      cong: sum.case_cong option.case_cong prod.case_cong if_cong)

lemma resolveTarget_absent_non_key:
  assumes "State_GetActor env (State vm) target = Inr None"
      and "Protocol target \<noteq> SECP256K1" and "Protocol target \<noteq> BLS"
  shows "resolveTarget nested env ctx target vm =
           (case State_GetActor env (State vm) init_Address of
              Inl e \<Rightarrow> Some (Inl OtherPanic, vm)
            | Inr None \<Rightarrow> Some (Inl (ExecutionPanic SysErrSenderInvalid), vm)
            | Inr (Some ia) \<Rightarrow>
                (case init_Load env ia of
                   Inl e \<Rightarrow> Some (Inl OtherPanic, vm)
                 | Inr st \<Rightarrow>
                     (case Charge (gasTank vm) (OnCreateActor env) of
                        Inl e \<Rightarrow> Some (Inl e, vm)
                      | Inr g \<Rightarrow>
                          (case State_RegisterNewAddress env (State vm) target of
                             Inl e \<Rightarrow> Some (Inl OtherPanic, vm\<lparr>gasTank := g\<rparr>)
                           | Inr (tid, t) \<Rightarrow>
                               Some (Inl (ExecutionPanic SysErrInvalidReceiver),
                                     vm\<lparr>gasTank := g, State := t\<rparr>)))))"
proof (cases "target = init_Address")
  case True
  with assms(1) show ?thesis
    by (simp add: resolveTarget_def)
next
  case False
  then show ?thesis
    using assms
    by (simp add: resolveTarget_def Let_def split: sum.splits option.splits prod.splits)
qed

lemma NewActorAddress_derivation:
  assumes "ResolveToDeterministicAddress env (State vm) (originatorStableAddress (topLevel vm)) = Inr origin"
      and "MarshalCBOR env origin = Inr buf"
      and "address_NewActorAddress env
             (buf @ be64 (originatorCallSeq (topLevel vm)) @ be64 (newActorAddressCount (topLevel vm)))
           = Inr a"
  shows "NewActorAddress env ctx vm = (Inr a, vm)"
  using assms by (simp add: NewActorAddress_def)

lemma be64_example: "be64 0x0102030405060708 = [1, 2, 3, 4, 5, 6, 7, 8]"
  by (simp add: be64_def drop_bit_eq_div)

subsection \<open>What the dispatcher makes of a returned value\<close>

lemma encodeReturn_error:
  "encodeReturn out = Inr (ret, Some err) \<Longrightarrow>
     ExitCode err = SysErrInvalidMethod \<or> ExitCode err = SysErrSenderStateInvalid"
  by (auto simp: encodeReturn_def split: retval.splits option.splits if_splits)

lemma encodeReturn_panic: "encodeReturn out = Inl e \<Longrightarrow> e = OtherPanic"
  by (auto simp: encodeReturn_def split: retval.splits option.splits if_splits)

subsection \<open>The beneficiary check and the address of the deleted actor\<close>

text \<open>\<^verbatim>\<open>DeleteActor\<close> compares the beneficiary's ID with \<^verbatim>\<open>ctx.originMsg.To\<close>, the
  recipient as the message names it, which \<^verbatim>\<open>invoke\<close> does not replace by the resolved
  ID (it replaces \<^verbatim>\<open>ctx.msg.To\<close>). When the message names the actor by another
  address than its ID, the comparison never holds: the check that the abort message
  words as "benefactor cannot be beneficiary" misses the actor itself. Here actor 102 is
  named by its actor address, holds 5 and gives itself as beneficiary at network version
  7: it is deleted, and the 5 with it.\<close>

lemma DeleteActor_self_beneficiary_unnormalized:
  "normalizeAddress example_env_robust (State (example_vm 100)) (IDAddr 102)
     = Some (IDAddr 102, True)
   \<and> normalizeAddress example_env_robust (State (example_vm 100))
         (To (originMsg (example_ctx (ActorAddr [2]) 0 1))) = Some (IDAddr 102, True)
   \<and> State_GetActor example_env_robust (State (example_vm 100))
         (To (originMsg (example_ctx (ActorAddr [2]) 0 1)))
       = Inr (Some (example_record (Cid 1) 5))
   \<and> Version7 \<le> NetworkVersion example_env_robust
   \<and> fst (DeleteActor example_env_robust (example_ctx (ActorAddr [2]) 0 1) (IDAddr 102)
             (example_vm 100)) = Inr ()
   \<and> State (snd (DeleteActor example_env_robust (example_ctx (ActorAddr [2]) 0 1) (IDAddr 102)
                    (example_vm 100))) (IDAddr 102) = None"
  by (simp add: example_LookupID_def example_env_robust_def example_defs runtime_defs
      version_defs exitcode_defs Let_def)

section \<open>The claims\<close>

subsection \<open>Abort trapping and rollback\<close>

text \<open>C1: \<^verbatim>\<open>invoke\<close> returns through its two results and in no other way, and it
  restores the state tree whenever the exit code is not \<^verbatim>\<open>Ok\<close>. For every amount of
  fuel, an invocation that returns leaves the stack of checkpoints as it found it and
  returns a pair \<open>(ret, code)\<close>, never an escaping panic; when the code is not zero,
  \<open>ret\<close> is the empty slice and the state tree is the tree on entry. A panic of the body is
  returned as its exit code when it is an \<^verbatim>\<open>ExecutionPanic\<close> and as \<^verbatim>\<open>1\<close> otherwise,
  with the tree reverted. The invocation does return, with any fuel above a bound: the
  bound is given by the depth limit from network version 6 on, and by the gas available
  whenever the price list charges for invocations. What it returns does not depend on
  the fuel.\<close>

theorem invoke_returns_and_rolls_back:
  "(invoke fuel env ctx vm = Some (r, ctx', vm') \<longrightarrow>
      snaps vm' = snaps vm \<and>
      (\<exists>ret c. r = Inr (ret, c) \<and> (c \<noteq> Ok \<longrightarrow> ret = Some [] \<and> State vm' = State vm)))
   \<and> (invoke_body (invoke fuel env) env ctx (vm\<lparr>snaps := State vm # snaps vm\<rparr>)
          = Some (Inl p, ctx1, vm1) \<longrightarrow>
        invoke (Suc fuel) env ctx vm =
          Some (Inr (Some [], case p of ExecutionPanic c \<Rightarrow> c | OtherPanic \<Rightarrow> 1), ctx1,
                vm1\<lparr>State := State vm, snaps := snaps vm\<rparr>))
   \<and> (Version6 \<le> NetworkVersion env \<and> MaxCallDepth env + 1 \<noteq> 0
          \<and> depth ctx \<le> MaxCallDepth env
          \<and> unat (MaxCallDepth env) - unat (depth ctx) < enough \<longrightarrow>
        (\<exists>y. invoke enough env ctx vm = Some y))
   \<and> (gas_priced env \<and> nat (GasAvailable (gasTank vm)) < enough \<longrightarrow>
        (\<exists>y. invoke enough env ctx vm = Some y))
   \<and> (invoke fuel env ctx vm = Some (r, ctx', vm') \<and> fuel \<le> fuel' \<longrightarrow>
        invoke fuel' env ctx vm = Some (r, ctx', vm'))"
proof (intro conjI impI)
  assume a: "invoke fuel env ctx vm = Some (r, ctx', vm')"
  show "snaps vm' = snaps vm"
    using a invoke_sound [of fuel env] unfolding sound_invoke_def by blast
  show "\<exists>ret c. r = Inr (ret, c) \<and> (c \<noteq> Ok \<longrightarrow> ret = Some [] \<and> State vm' = State vm)"
  proof (cases fuel)
    case 0
    with a show ?thesis by simp
  next
    case (Suc n)
    with a have s: "invoke_step (invoke n env) env ctx vm = Some (r, ctx', vm')" by simp
    then obtain b c1 v1 where
      b: "invoke_body (invoke n env) env ctx (vm\<lparr>snaps := State vm # snaps vm\<rparr>) = Some (b, c1, v1)"
      by (auto simp: invoke_step_def snapshot_def split: option.splits)
    show ?thesis
      using s invoke_step_result [OF invoke_sound b]
      by (auto split: sum.splits panic.splits)
  qed
next
  assume b: "invoke_body (invoke fuel env) env ctx (vm\<lparr>snaps := State vm # snaps vm\<rparr>)
          = Some (Inl p, ctx1, vm1)"
  show "invoke (Suc fuel) env ctx vm =
          Some (Inr (Some [], case p of ExecutionPanic c \<Rightarrow> c | OtherPanic \<Rightarrow> 1), ctx1,
                vm1\<lparr>State := State vm, snaps := snaps vm\<rparr>)"
    using invoke_step_result [OF invoke_sound b] by (simp split: panic.splits)
next
  assume "Version6 \<le> NetworkVersion env \<and> MaxCallDepth env + 1 \<noteq> 0
          \<and> depth ctx \<le> MaxCallDepth env
          \<and> unat (MaxCallDepth env) - unat (depth ctx) < enough"
  then have "invoke enough env ctx vm \<noteq> None"
    by (intro total_invoke) auto
  then show "\<exists>y. invoke enough env ctx vm = Some y"
    by blast
next
  assume g: "gas_priced env \<and> nat (GasAvailable (gasTank vm)) < enough"
  then obtain n where n: "enough = Suc n" by (cases enough) auto
  with g have "gas_of vm \<le> int n" by (auto simp: gas_of_def)
  with g have "invoke (Suc n) env ctx vm \<noteq> None"
    by (intro total_invoke_gas) auto
  with n show "\<exists>y. invoke enough env ctx vm = Some y"
    by blast
next
  assume "invoke fuel env ctx vm = Some (r, ctx', vm') \<and> fuel \<le> fuel'"
  then show "invoke fuel' env ctx vm = Some (r, ctx', vm')"
    using invoke_more_fuel by blast
qed

text \<open>Method 5 of the example creates an actor and panics: the exit code is 1 and the
  created actor is gone. Method 4 validates, creates an actor and aborts with 33.\<close>

theorem invoke_returns_and_rolls_back_witness:
  "invoke (Suc 0) (example_env 7) (example_ctx (IDAddr 101) 0 5) (example_vm 100)
     = Some (Inr (Some [], 1), (example_ctx (IDAddr 101) 0 5)\<lparr>stateHandle := True\<rparr>,
             (example_vm 100)\<lparr>gasTank := \<lparr>GasAvailable = 99, GasUsed = 1\<rparr>\<rparr>)
   \<and> invoke_body (invoke 0 (example_env 7)) (example_env 7) (example_ctx (IDAddr 101) 0 5)
        ((example_vm 100)\<lparr>snaps := State (example_vm 100) # snaps (example_vm 100)\<rparr>)
     = Some (Inl OtherPanic, (example_ctx (IDAddr 101) 0 5)\<lparr>stateHandle := True\<rparr>,
             (example_vm 100)
               \<lparr>snaps := [example_State],
                gasTank := \<lparr>GasAvailable = 99, GasUsed = 1\<rparr>,
                State := example_State
                  (IDAddr 200 \<mapsto> \<lparr>Code = Cid 1, Head = Cid 0, Nonce = 0, Balance = 0,
                                   DelegatedAddress = Some (IDAddr 200)\<rparr>)\<rparr>)
   \<and> invoke (Suc 0) (example_env 7) (example_ctx (IDAddr 101) 0 4) (example_vm 100)
     = Some (Inr (Some [], 33),
             (example_ctx (IDAddr 101) 0 4)\<lparr>stateHandle := True, isCallerValidated := True\<rparr>,
             (example_vm 100)\<lparr>gasTank := \<lparr>GasAvailable = 99, GasUsed = 1\<rparr>\<rparr>)
   \<and> Version6 \<le> NetworkVersion (example_env 7)
   \<and> MaxCallDepth (example_env 7) + 1 \<noteq> 0
   \<and> depth (example_ctx (IDAddr 101) 0 5) \<le> MaxCallDepth (example_env 7)
   \<and> unat (MaxCallDepth (example_env 7)) - unat (depth (example_ctx (IDAddr 101) 0 5)) < 4097
   \<and> gas_priced (example_env 7)
   \<and> nat (GasAvailable (gasTank (example_vm 100))) < 4097
   \<and> invoke 4097 (example_env 7) (example_ctx (IDAddr 101) 0 5) (example_vm 100)
     = Some (Inr (Some [], 1), (example_ctx (IDAddr 101) 0 5)\<lparr>stateHandle := True\<rparr>,
             (example_vm 100)\<lparr>gasTank := \<lparr>GasAvailable = 99, GasUsed = 1\<rparr>\<rparr>)"
  using invoke_returns_and_rolls_back
          [of "Suc 0" "example_env 7" "example_ctx (IDAddr 101) 0 5" "example_vm 100"
              "Inr (Some [], 1)" "(example_ctx (IDAddr 101) 0 5)\<lparr>stateHandle := True\<rparr>"
              "(example_vm 100)\<lparr>gasTank := \<lparr>GasAvailable = 99, GasUsed = 1\<rparr>\<rparr>"
              OtherPanic _ _ 4097 4097]
        invoke_returns_and_rolls_back
          [of 0 "example_env 7" "example_ctx (IDAddr 101) 0 5" "example_vm 100"
              "Inr (Some [], 1)" "(example_ctx (IDAddr 101) 0 5)\<lparr>stateHandle := True\<rparr>"
              "(example_vm 100)\<lparr>gasTank := \<lparr>GasAvailable = 99, GasUsed = 1\<rparr>\<rparr>"
              OtherPanic "(example_ctx (IDAddr 101) 0 5)\<lparr>stateHandle := True\<rparr>"
              "(example_vm 100)
               \<lparr>snaps := [example_State],
                gasTank := \<lparr>GasAvailable = 99, GasUsed = 1\<rparr>,
                State := example_State
                  (IDAddr 200 \<mapsto> \<lparr>Code = Cid 1, Head = Cid 0, Nonce = 0, Balance = 0,
                                   DelegatedAddress = Some (IDAddr 200)\<rparr>)\<rparr>"]
        gas_priced_example [of 7]
  by (simp add: example_defs runtime_defs version_defs exitcode_defs Let_def)

subsection \<open>New actor addresses\<close>

text \<open>C2: \<^verbatim>\<open>NewActorAddress\<close> derives the address as claimed (lemma
  \<open>NewActorAddress_derivation\<close>), but it does not count its calls: it returns the VM it
  was given, so \<^verbatim>\<open>newActorAddressCount\<close> is never the old count plus one, and a second
  call returns the address of the first. In the example the counter is 0 before and after
  the call.\<close>

theorem NewActorAddress_counter_not_incremented:
  "snd (NewActorAddress env ctx vm) = vm
   \<and> newActorAddressCount (topLevel (snd (NewActorAddress env ctx vm)))
       \<noteq> newActorAddressCount (topLevel vm) + 1
   \<and> fst (NewActorAddress env ctx (snd (NewActorAddress env ctx vm)))
       = fst (NewActorAddress env ctx vm)
   \<and> NewActorAddress (example_env 7) (example_ctx (IDAddr 101) 0 1) (example_vm 100)
       = (Inr (ActorAddr [3, 7, 0, 0, 0, 0, 0, 0, 0, 7, 0, 0, 0, 0, 0, 0, 0, 0]), example_vm 100)
   \<and> newActorAddressCount (topLevel (snd (NewActorAddress (example_env 7)
         (example_ctx (IDAddr 101) 0 1) (example_vm 100)))) = 0"
  by (simp add: NewActorAddress_def example_env_def example_vm_def be64_def split: sum.splits)

subsection \<open>The Send method\<close>

text \<open>C3: for a message with method number 0, once the pre-dispatch steps (sender check,
  target resolution, gas charge and, last, the value transfer) have completed,
  \<^verbatim>\<open>invoke\<close> returns \<^verbatim>\<open>(nil, Ok)\<close> with the frame and the VM as the transfer left
  them, the checkpoint popped. No actor implementation is looked up (the result is the
  same under every \<^verbatim>\<open>getActorImpl\<close>) and no state handle is attached.\<close>

theorem invoke_MethodSend:
  assumes "preDispatch nested env ctx (vm\<lparr>snaps := State vm # snaps vm\<rparr>)
             = Some (Inr y, ctx1, vm3)"
      and "Method (originMsg ctx) = MethodSend"
  shows "invoke_step nested env ctx vm = Some (Inr (None, Ok), ctx1, clearSnapshot vm3)
       \<and> invoke_step nested (env\<lparr>getActorImpl := g\<rparr>) ctx vm
           = Some (Inr (None, Ok), ctx1, clearSnapshot vm3)
       \<and> stateHandle ctx1 = stateHandle ctx"
proof -
  have m: "Method (originMsg ctx1) = MethodSend"
    using assms
    by (auto simp: preDispatch_def Let_def split: if_splits option.splits sum.splits prod.splits)
  have h: "stateHandle ctx1 = stateHandle ctx"
    using assms(1)
    by (auto simp: preDispatch_def Let_def split: if_splits option.splits sum.splits prod.splits)
  have b: "\<And>e. preDispatch nested e ctx (vm\<lparr>snaps := State vm # snaps vm\<rparr>)
                 = Some (Inr y, ctx1, vm3)
            \<Longrightarrow> invoke_step nested e ctx vm = Some (Inr (None, Ok), ctx1, clearSnapshot vm3)"
    using m by (cases y) (simp add: invoke_step_def snapshot_def invoke_body_def)
  show ?thesis
    using b [of env] b [of "env\<lparr>getActorImpl := g\<rparr>"] assms(1) h
    by (simp add: preDispatch_getActorImpl)
qed

text \<open>Actor 100 sends 30 to actor 101 with method 0.\<close>

theorem invoke_MethodSend_witness:
  "preDispatch (invoke 0 (example_env 7)) (example_env 7) (example_ctx (IDAddr 101) 30 0)
      ((example_vm 100)\<lparr>snaps := State (example_vm 100) # snaps (example_vm 100)\<rparr>)
     = Some (Inr (Some (example_record (Cid 1) 0), IDAddr 101), example_ctx (IDAddr 101) 30 0,
             (example_vm 100)
               \<lparr>snaps := [example_State],
                gasTank := \<lparr>GasAvailable = 99, GasUsed = 1\<rparr>,
                State := example_State
                  (IDAddr 100 \<mapsto> example_record (Cid 2) 20,
                   IDAddr 101 \<mapsto> example_record (Cid 1) 30)\<rparr>)
   \<and> Method (originMsg (example_ctx (IDAddr 101) 30 0)) = MethodSend
   \<and> invoke (Suc 0) (example_env 7) (example_ctx (IDAddr 101) 30 0) (example_vm 100)
     = Some (Inr (None, Ok), example_ctx (IDAddr 101) 30 0,
             (example_vm 100)
               \<lparr>gasTank := \<lparr>GasAvailable = 99, GasUsed = 1\<rparr>,
                State := example_State
                  (IDAddr 100 \<mapsto> example_record (Cid 2) 20,
                   IDAddr 101 \<mapsto> example_record (Cid 1) 30)\<rparr>)"
  using invoke_MethodSend
          [of "invoke 0 (example_env 7)" "example_env 7" "example_ctx (IDAddr 101) 30 0"
              "example_vm 100" "(Some (example_record (Cid 1) 0), IDAddr 101)"
              "example_ctx (IDAddr 101) 30 0"
              "(example_vm 100)
               \<lparr>snaps := [example_State],
                gasTank := \<lparr>GasAvailable = 99, GasUsed = 1\<rparr>,
                State := example_State
                  (IDAddr 100 \<mapsto> example_record (Cid 2) 20,
                   IDAddr 101 \<mapsto> example_record (Cid 1) 30)\<rparr>"]
  by (simp add: example_defs runtime_defs version_defs exitcode_defs Let_def)

subsection \<open>Validating the caller exactly once\<close>

text \<open>C4: in a dispatched frame (method number not 0) that starts unvalidated, let the
  method body run to its end. It makes at most two \<^verbatim>\<open>ValidateCaller\<close> calls, and the
  second one aborts the body with \<^verbatim>\<open>SysErrorIllegalActor\<close>; \<^verbatim>\<open>ValidateCaller\<close> on a
  validated frame always does. A body that aborts with the code \<open>c\<close> makes \<^verbatim>\<open>invoke\<close>
  return \<open>c\<close> with the state tree reverted, whatever it validated, and any other panic
  gives the code 1. When the body returns a value that \<^verbatim>\<open>Dispatch\<close> encodes, either
  it made exactly one call and \<^verbatim>\<open>invoke\<close> returns \<^verbatim>\<open>(ret, Ok)\<close>, or it made none
  and \<^verbatim>\<open>invoke\<close> aborts with \<^verbatim>\<open>SysErrorIllegalActor\<close> after the dispatch, the
  state tree reverted. When the body returns a value that \<^verbatim>\<open>Dispatch\<close> does not
  encode, \<^verbatim>\<open>invoke\<close> aborts with the code of the dispatch error
  (\<^verbatim>\<open>SysErrInvalidMethod\<close> or \<^verbatim>\<open>SysErrSenderStateInvalid\<close>), or with 1 when
  \<^verbatim>\<open>Dispatch\<close> panics, before it looks at the validation. So \<^verbatim>\<open>invoke\<close> returns
  \<^verbatim>\<open>Ok\<close> only if the body validated exactly once, or aborted with the code 0
  itself.\<close>

theorem ValidateCaller_exactly_once:
  assumes pre: "preDispatch (invoke fuel env) env ctx (vm\<lparr>snaps := State vm # snaps vm\<rparr>)
                  = Some (Inr (Some a, toIDAddr), ctx1, vm3)"
      and meth: "Method (originMsg ctx) \<noteq> MethodSend"
      and impl: "getActorImpl env (Code a) = Inr d"
      and sig: "signature d (Method (originMsg ctx)) = Inr (Inr m)"
      and args: "buildArgs m (NetworkVersion env) (Params (originMsg ctx)) = Inr arg"
      and fresh: "\<not> isCallerValidated ctx"
      and body: "run (invoke fuel env) env (Call m arg) (ctx1\<lparr>stateHandle := True\<rparr>) vm3
                   = Some (res, ctx3, vm4)"
  shows "validations (invoke fuel env) env (Call m arg) (ctx1\<lparr>stateHandle := True\<rparr>) vm3 \<le> 2
       \<and> (validations (invoke fuel env) env (Call m arg) (ctx1\<lparr>stateHandle := True\<rparr>) vm3 = 2
            \<longrightarrow> res = Inl (ExecutionPanic SysErrorIllegalActor))
       \<and> (isCallerValidated c' \<longrightarrow>
            ValidateCaller env p c' v' = (Inl (ExecutionPanic SysErrorIllegalActor), c', v'))
       \<and> (res = Inl (ExecutionPanic c) \<longrightarrow>
            invoke (Suc fuel) env ctx vm =
              Some (Inr (Some [], c), ctx3, vm4\<lparr>State := State vm, snaps := snaps vm\<rparr>))
       \<and> (res = Inl OtherPanic \<longrightarrow>
            invoke (Suc fuel) env ctx vm =
              Some (Inr (Some [], 1), ctx3, vm4\<lparr>State := State vm, snaps := snaps vm\<rparr>))
       \<and> (res = Inr out \<longrightarrow> encodeReturn out = Inr (ret, None) \<longrightarrow>
            validations (invoke fuel env) env (Call m arg) (ctx1\<lparr>stateHandle := True\<rparr>) vm3 = 1
              \<and> invoke (Suc fuel) env ctx vm =
                  Some (Inr (ret, Ok), ctx3\<lparr>stateHandle := False\<rparr>, vm4\<lparr>snaps := snaps vm\<rparr>)
            \<or> validations (invoke fuel env) env (Call m arg) (ctx1\<lparr>stateHandle := True\<rparr>) vm3 = 0
              \<and> invoke (Suc fuel) env ctx vm =
                  Some (Inr (Some [], SysErrorIllegalActor), ctx3,
                        vm4\<lparr>State := State vm, snaps := snaps vm\<rparr>))
       \<and> (res = Inr out \<longrightarrow> encodeReturn out = Inr (ret, Some err) \<longrightarrow>
            (ExitCode err = SysErrInvalidMethod \<or> ExitCode err = SysErrSenderStateInvalid)
            \<and> invoke (Suc fuel) env ctx vm =
                Some (Inr (Some [], ExitCode err), ctx3,
                      vm4\<lparr>State := State vm, snaps := snaps vm\<rparr>))
       \<and> (res = Inr out \<longrightarrow> encodeReturn out = Inl e \<longrightarrow>
            invoke (Suc fuel) env ctx vm =
              Some (Inr (Some [], 1), ctx3, vm4\<lparr>State := State vm, snaps := snaps vm\<rparr>))
       \<and> (invoke (Suc fuel) env ctx vm = Some (Inr (ret', Ok), ctx', vm') \<longrightarrow>
            validations (invoke fuel env) env (Call m arg) (ctx1\<lparr>stateHandle := True\<rparr>) vm3 = 1
            \<or> res = Inl (ExecutionPanic Ok))"
proof -
  let ?n = "validations (invoke fuel env) env (Call m arg) (ctx1\<lparr>stateHandle := True\<rparr>) vm3"
  let ?vm0 = "vm\<lparr>snaps := State vm # snaps vm\<rparr>"
  let ?rolled = "vm4\<lparr>State := State vm, snaps := snaps vm\<rparr>"
  note fr = preDispatch_frame [OF pre]
  have f1: "\<not> isCallerValidated (ctx1\<lparr>stateHandle := True\<rparr>)"
    using fr fresh by simp
  note vr = validations_run [OF body]
  have n2: "?n \<le> 2" and n2': "?n = 2 \<longrightarrow> res = Inl (ExecutionPanic SysErrorIllegalActor)"
    and n0: "?n = 0 \<longrightarrow> \<not> isCallerValidated ctx3"
    and n1: "?n = 1 \<longrightarrow> (\<exists>r. res = Inr r) \<longrightarrow> isCallerValidated ctx3"
    using vr f1 by blast+
  have disp: "Dispatch (invoke fuel env) env d (Method (originMsg ctx1)) (NetworkVersion env)
                (ctx1\<lparr>stateHandle := True\<rparr>) (Params (originMsg ctx1)) vm3 =
              (case res of
                 Inl e \<Rightarrow> Some (Inl e, ctx3, vm4)
               | Inr out \<Rightarrow>
                   (case encodeReturn out of
                      Inl e \<Rightarrow> Some (Inl e, ctx3, vm4)
                    | Inr r \<Rightarrow> Some (Inr r, ctx3, vm4)))"
    using sig args body fr by (simp add: Dispatch_def split: sum.splits)
  have ib: "invoke_body (invoke fuel env) env ctx ?vm0 =
              (case Dispatch (invoke fuel env) env d (Method (originMsg ctx1)) (NetworkVersion env)
                      (ctx1\<lparr>stateHandle := True\<rparr>) (Params (originMsg ctx1)) vm3 of
                 None \<Rightarrow> None
               | Some (Inl e, c3, v4) \<Rightarrow> Some (Inl e, c3, v4)
               | Some (Inr (r, Some extErr), c3, v4) \<Rightarrow>
                   Some (Inl (ExecutionPanic (ExitCode extErr)), c3, v4)
               | Some (Inr (r, None), c3, v4) \<Rightarrow>
                   if \<not> isCallerValidated c3
                   then Some (Inl (ExecutionPanic SysErrorIllegalActor), c3, v4)
                   else Some (Inr r, c3\<lparr>stateHandle := False\<rparr>, v4))"
    using pre meth impl fr by (simp add: invoke_body_def Let_def)
  note st = invoke_step_result [OF invoke_sound, of fuel env env ctx vm]
  have abort: "invoke (Suc fuel) env ctx vm = Some (Inr (Some [], k), ctx3, ?rolled)"
    if "res = Inl (ExecutionPanic k)" for k
  proof -
    from that have "invoke_body (invoke fuel env) env ctx ?vm0
                      = Some (Inl (ExecutionPanic k), ctx3, vm4)"
      by (simp add: ib disp)
    from st [OF this] show ?thesis by simp
  qed
  have other: "invoke (Suc fuel) env ctx vm = Some (Inr (Some [], 1), ctx3, ?rolled)"
    if "res = Inl OtherPanic"
  proof -
    from that have "invoke_body (invoke fuel env) env ctx ?vm0 = Some (Inl OtherPanic, ctx3, vm4)"
      by (simp add: ib disp)
    from st [OF this] show ?thesis by simp
  qed
  have ret: "?n = 1
              \<and> invoke (Suc fuel) env ctx vm =
                  Some (Inr (r, Ok), ctx3\<lparr>stateHandle := False\<rparr>, vm4\<lparr>snaps := snaps vm\<rparr>)
            \<or> ?n = 0
              \<and> invoke (Suc fuel) env ctx vm =
                  Some (Inr (Some [], SysErrorIllegalActor), ctx3, ?rolled)"
    if r: "res = Inr o'" and e: "encodeReturn o' = Inr (r, None)" for o' r
  proof -
    have b: "invoke_body (invoke fuel env) env ctx ?vm0 =
               (if \<not> isCallerValidated ctx3
                then Some (Inl (ExecutionPanic SysErrorIllegalActor), ctx3, vm4)
                else Some (Inr r, ctx3\<lparr>stateHandle := False\<rparr>, vm4))"
      by (simp add: ib disp r e)
    have "?n = 0 \<or> ?n = 1" using n2 n2' r by (cases "?n = 2") auto
    then show ?thesis
    proof
      assume z: "?n = 0"
      with n0 have "\<not> isCallerValidated ctx3" by simp
      with b have "invoke_body (invoke fuel env) env ctx ?vm0 =
                     Some (Inl (ExecutionPanic SysErrorIllegalActor), ctx3, vm4)" by simp
      from st [OF this] z show ?thesis by simp
    next
      assume o: "?n = 1"
      with n1 r have "isCallerValidated ctx3" by simp
      with b have "invoke_body (invoke fuel env) env ctx ?vm0 =
                     Some (Inr r, ctx3\<lparr>stateHandle := False\<rparr>, vm4)" by simp
      from st [OF this] o show ?thesis by simp
    qed
  qed
  have unenc: "invoke (Suc fuel) env ctx vm = Some (Inr (Some [], ExitCode x), ctx3, ?rolled)"
    if "res = Inr o'" and "encodeReturn o' = Inr (r, Some x)" for o' r x
  proof -
    from that have "invoke_body (invoke fuel env) env ctx ?vm0
                      = Some (Inl (ExecutionPanic (ExitCode x)), ctx3, vm4)"
      by (simp add: ib disp)
    from st [OF this] show ?thesis by simp
  qed
  have encp: "invoke (Suc fuel) env ctx vm = Some (Inr (Some [], 1), ctx3, ?rolled)"
    if "res = Inr o'" and "encodeReturn o' = Inl x" for o' x
  proof -
    from that have "invoke_body (invoke fuel env) env ctx ?vm0 = Some (Inl OtherPanic, ctx3, vm4)"
      using encodeReturn_panic [OF that(2)] by (simp add: ib disp)
    from st [OF this] show ?thesis by simp
  qed
  have second: "isCallerValidated c' \<longrightarrow>
            ValidateCaller env p c' v' = (Inl (ExecutionPanic SysErrorIllegalActor), c', v')"
    by (simp add: ValidateCaller_def)
  have only: "?n = 1 \<or> res = Inl (ExecutionPanic Ok)"
    if ok: "invoke (Suc fuel) env ctx vm = Some (Inr (ret', Ok), ctx', vm')"
  proof (cases res)
    case (Inl pn)
    show ?thesis
    proof (cases pn)
      case (ExecutionPanic k)
      with Inl abort [of k] ok show ?thesis by simp
    next
      case OtherPanic
      with Inl other ok show ?thesis by (simp add: Ok_def)
    qed
  next
    case (Inr o')
    show ?thesis
    proof (cases "encodeReturn o'")
      case (Inl x)
      with Inr encp [of o' x] ok show ?thesis by (simp add: Ok_def)
    next
      case er: (Inr rr)
      obtain r xo where rr: "rr = (r, xo)" by (cases rr)
      show ?thesis
      proof (cases xo)
        case None
        with ret [of o' r] Inr er rr ok show ?thesis
          by (auto simp: exitcode_defs)
      next
        case (Some x)
        with unenc [of o' r x] encodeReturn_error [of o' r x] Inr er rr ok show ?thesis
          by (auto simp: exitcode_defs)
      qed
    qed
  qed
  show ?thesis
    using n2 n2' second abort other ret unenc encp only encodeReturn_error
    by (intro conjI impI) blast+
qed

text \<open>Method 7 of the example returns, without validating, a value that
  \<^verbatim>\<open>Dispatch\<close> cannot encode: \<^verbatim>\<open>invoke\<close> aborts with \<^verbatim>\<open>SysErrInvalidMethod\<close>, not
  with \<^verbatim>\<open>SysErrorIllegalActor\<close>. Method 6 aborts with the code 0 without validating:
  \<^verbatim>\<open>invoke\<close> returns \<^verbatim>\<open>Ok\<close>.\<close>

theorem ValidateCaller_exactly_once_counterexample:
  "Method (originMsg (example_ctx (IDAddr 101) 0 7)) \<noteq> MethodSend
   \<and> signature example_actor 7 = Inr (Inr (example_entry (Return RetOther)))
   \<and> validations (invoke 0 (example_env 7)) (example_env 7)
        (Call (example_entry (Return RetOther)) (ObjData []))
        ((example_ctx (IDAddr 101) 0 7)\<lparr>stateHandle := True\<rparr>)
        ((example_vm 100)\<lparr>snaps := [example_State],
                          gasTank := \<lparr>GasAvailable = 99, GasUsed = 1\<rparr>\<rparr>) = 0
   \<and> invoke (Suc 0) (example_env 7) (example_ctx (IDAddr 101) 0 7) (example_vm 100)
       = Some (Inr (Some [], SysErrInvalidMethod),
               (example_ctx (IDAddr 101) 0 7)\<lparr>stateHandle := True\<rparr>,
               (example_vm 100)\<lparr>gasTank := \<lparr>GasAvailable = 99, GasUsed = 1\<rparr>\<rparr>)
   \<and> SysErrInvalidMethod \<noteq> SysErrorIllegalActor
   \<and> Method (originMsg (example_ctx (IDAddr 101) 0 6)) \<noteq> MethodSend
   \<and> signature example_actor 6 = Inr (Inr (example_entry (Abort 0)))
   \<and> validations (invoke 0 (example_env 7)) (example_env 7)
        (Call (example_entry (Abort 0)) (ObjData []))
        ((example_ctx (IDAddr 101) 0 6)\<lparr>stateHandle := True\<rparr>)
        ((example_vm 100)\<lparr>snaps := [example_State],
                          gasTank := \<lparr>GasAvailable = 99, GasUsed = 1\<rparr>\<rparr>) = 0
   \<and> invoke (Suc 0) (example_env 7) (example_ctx (IDAddr 101) 0 6) (example_vm 100)
       = Some (Inr (Some [], Ok),
               (example_ctx (IDAddr 101) 0 6)\<lparr>stateHandle := True\<rparr>,
               (example_vm 100)\<lparr>gasTank := \<lparr>GasAvailable = 99, GasUsed = 1\<rparr>\<rparr>)"
  by (simp add: example_defs runtime_defs version_defs exitcode_defs Let_def)

text \<open>Methods 1, 2 and 3 of the example validate once, never and twice; methods 6, 7
  and 8 abort with the code 0, return an unencodable value without validating, and
  return one after validating.\<close>

theorem ValidateCaller_exactly_once_witness:
  "preDispatch (invoke 0 (example_env 7)) (example_env 7) (example_ctx (IDAddr 101) 0 1)
      ((example_vm 100)\<lparr>snaps := State (example_vm 100) # snaps (example_vm 100)\<rparr>)
     = Some (Inr (Some (example_record (Cid 1) 0), IDAddr 101), example_ctx (IDAddr 101) 0 1,
             (example_vm 100)\<lparr>snaps := [example_State],
                               gasTank := \<lparr>GasAvailable = 99, GasUsed = 1\<rparr>\<rparr>)
   \<and> getActorImpl (example_env 7) (Code (example_record (Cid 1) 0)) = Inr example_actor
   \<and> \<not> isCallerValidated (example_ctx (IDAddr 101) 0 1)
   \<and> validations (invoke 0 (example_env 7)) (example_env 7)
        (CallValidateCaller example_any (Return RetNil))
        ((example_ctx (IDAddr 101) 0 1)\<lparr>stateHandle := True\<rparr>)
        ((example_vm 100)\<lparr>snaps := [example_State],
                          gasTank := \<lparr>GasAvailable = 99, GasUsed = 1\<rparr>\<rparr>) = 1
   \<and> invoke (Suc 0) (example_env 7) (example_ctx (IDAddr 101) 0 1) (example_vm 100)
       = Some (Inr (None, Ok), (example_ctx (IDAddr 101) 0 1)\<lparr>isCallerValidated := True\<rparr>,
               (example_vm 100)\<lparr>gasTank := \<lparr>GasAvailable = 99, GasUsed = 1\<rparr>\<rparr>)
   \<and> validations (invoke 0 (example_env 7)) (example_env 7) (Return RetNil)
        ((example_ctx (IDAddr 101) 0 2)\<lparr>stateHandle := True\<rparr>)
        ((example_vm 100)\<lparr>snaps := [example_State],
                          gasTank := \<lparr>GasAvailable = 99, GasUsed = 1\<rparr>\<rparr>) = 0
   \<and> invoke (Suc 0) (example_env 7) (example_ctx (IDAddr 101) 0 2) (example_vm 100)
       = Some (Inr (Some [], SysErrorIllegalActor),
               (example_ctx (IDAddr 101) 0 2)\<lparr>stateHandle := True\<rparr>,
               (example_vm 100)\<lparr>gasTank := \<lparr>GasAvailable = 99, GasUsed = 1\<rparr>\<rparr>)
   \<and> validations (invoke 0 (example_env 7)) (example_env 7)
        (CallValidateCaller example_any (CallValidateCaller example_any (Return RetNil)))
        ((example_ctx (IDAddr 101) 0 3)\<lparr>stateHandle := True\<rparr>)
        ((example_vm 100)\<lparr>snaps := [example_State],
                          gasTank := \<lparr>GasAvailable = 99, GasUsed = 1\<rparr>\<rparr>) = 2
   \<and> invoke (Suc 0) (example_env 7) (example_ctx (IDAddr 101) 0 3) (example_vm 100)
       = Some (Inr (Some [], SysErrorIllegalActor),
               (example_ctx (IDAddr 101) 0 3)\<lparr>stateHandle := True, isCallerValidated := True\<rparr>,
               (example_vm 100)\<lparr>gasTank := \<lparr>GasAvailable = 99, GasUsed = 1\<rparr>\<rparr>)
   \<and> invoke (Suc 0) (example_env 7) (example_ctx (IDAddr 101) 0 6) (example_vm 100)
       = Some (Inr (Some [], 0),
               (example_ctx (IDAddr 101) 0 6)\<lparr>stateHandle := True\<rparr>,
               (example_vm 100)\<lparr>gasTank := \<lparr>GasAvailable = 99, GasUsed = 1\<rparr>\<rparr>)
   \<and> invoke (Suc 0) (example_env 7) (example_ctx (IDAddr 101) 0 7) (example_vm 100)
       = Some (Inr (Some [], SysErrInvalidMethod),
               (example_ctx (IDAddr 101) 0 7)\<lparr>stateHandle := True\<rparr>,
               (example_vm 100)\<lparr>gasTank := \<lparr>GasAvailable = 99, GasUsed = 1\<rparr>\<rparr>)
   \<and> invoke (Suc 0) (example_env 7) (example_ctx (IDAddr 101) 0 8) (example_vm 100)
       = Some (Inr (Some [], SysErrInvalidMethod),
               (example_ctx (IDAddr 101) 0 8)\<lparr>stateHandle := True, isCallerValidated := True\<rparr>,
               (example_vm 100)\<lparr>gasTank := \<lparr>GasAvailable = 99, GasUsed = 1\<rparr>\<rparr>)"
  using ValidateCaller_exactly_once
          [where fuel = 0 and env = "example_env 7" and ctx = "example_ctx (IDAddr 101) 0 1"
             and vm = "example_vm 100" and a = "example_record (Cid 1) 0"
             and toIDAddr = "IDAddr 101" and ?ctx1.0 = "example_ctx (IDAddr 101) 0 1"
             and ?vm3.0 = "(example_vm 100)\<lparr>snaps := [example_State],
                                gasTank := \<lparr>GasAvailable = 99, GasUsed = 1\<rparr>\<rparr>"
             and d = example_actor
             and m = "example_entry (CallValidateCaller example_any (Return RetNil))"
             and arg = "ObjData []" and res = "Inr RetNil"
             and ?ctx3.0 = "(example_ctx (IDAddr 101) 0 1)
                              \<lparr>stateHandle := True, isCallerValidated := True\<rparr>"
             and ?vm4.0 = "(example_vm 100)\<lparr>snaps := [example_State],
                                gasTank := \<lparr>GasAvailable = 99, GasUsed = 1\<rparr>\<rparr>"
             and out = RetNil and ret = None]
        ValidateCaller_exactly_once
          [where fuel = 0 and env = "example_env 7" and ctx = "example_ctx (IDAddr 101) 0 2"
             and vm = "example_vm 100" and a = "example_record (Cid 1) 0"
             and toIDAddr = "IDAddr 101" and ?ctx1.0 = "example_ctx (IDAddr 101) 0 2"
             and ?vm3.0 = "(example_vm 100)\<lparr>snaps := [example_State],
                                gasTank := \<lparr>GasAvailable = 99, GasUsed = 1\<rparr>\<rparr>"
             and d = example_actor
             and m = "example_entry (Return RetNil)"
             and arg = "ObjData []" and res = "Inr RetNil"
             and ?ctx3.0 = "(example_ctx (IDAddr 101) 0 2)\<lparr>stateHandle := True\<rparr>"
             and ?vm4.0 = "(example_vm 100)\<lparr>snaps := [example_State],
                                gasTank := \<lparr>GasAvailable = 99, GasUsed = 1\<rparr>\<rparr>"
             and out = RetNil and ret = None]
        ValidateCaller_exactly_once
          [where fuel = 0 and env = "example_env 7" and ctx = "example_ctx (IDAddr 101) 0 3"
             and vm = "example_vm 100" and a = "example_record (Cid 1) 0"
             and toIDAddr = "IDAddr 101" and ?ctx1.0 = "example_ctx (IDAddr 101) 0 3"
             and ?vm3.0 = "(example_vm 100)\<lparr>snaps := [example_State],
                                gasTank := \<lparr>GasAvailable = 99, GasUsed = 1\<rparr>\<rparr>"
             and d = example_actor
             and m = "example_entry (CallValidateCaller example_any
                        (CallValidateCaller example_any (Return RetNil)))"
             and arg = "ObjData []" and res = "Inl (ExecutionPanic SysErrorIllegalActor)"
             and ?ctx3.0 = "(example_ctx (IDAddr 101) 0 3)
                              \<lparr>stateHandle := True, isCallerValidated := True\<rparr>"
             and ?vm4.0 = "(example_vm 100)\<lparr>snaps := [example_State],
                                gasTank := \<lparr>GasAvailable = 99, GasUsed = 1\<rparr>\<rparr>"
             and c = SysErrorIllegalActor]
        ValidateCaller_exactly_once
          [where fuel = 0 and env = "example_env 7" and ctx = "example_ctx (IDAddr 101) 0 6"
             and vm = "example_vm 100" and a = "example_record (Cid 1) 0"
             and toIDAddr = "IDAddr 101" and ?ctx1.0 = "example_ctx (IDAddr 101) 0 6"
             and ?vm3.0 = "(example_vm 100)\<lparr>snaps := [example_State],
                                gasTank := \<lparr>GasAvailable = 99, GasUsed = 1\<rparr>\<rparr>"
             and d = example_actor
             and m = "example_entry (Abort 0)"
             and arg = "ObjData []" and res = "Inl (ExecutionPanic 0)"
             and ?ctx3.0 = "(example_ctx (IDAddr 101) 0 6)\<lparr>stateHandle := True\<rparr>"
             and ?vm4.0 = "(example_vm 100)\<lparr>snaps := [example_State],
                                gasTank := \<lparr>GasAvailable = 99, GasUsed = 1\<rparr>\<rparr>"
             and c = 0]
        ValidateCaller_exactly_once
          [where fuel = 0 and env = "example_env 7" and ctx = "example_ctx (IDAddr 101) 0 7"
             and vm = "example_vm 100" and a = "example_record (Cid 1) 0"
             and toIDAddr = "IDAddr 101" and ?ctx1.0 = "example_ctx (IDAddr 101) 0 7"
             and ?vm3.0 = "(example_vm 100)\<lparr>snaps := [example_State],
                                gasTank := \<lparr>GasAvailable = 99, GasUsed = 1\<rparr>\<rparr>"
             and d = example_actor
             and m = "example_entry (Return RetOther)"
             and arg = "ObjData []" and res = "Inr RetOther"
             and ?ctx3.0 = "(example_ctx (IDAddr 101) 0 7)\<lparr>stateHandle := True\<rparr>"
             and ?vm4.0 = "(example_vm 100)\<lparr>snaps := [example_State],
                                gasTank := \<lparr>GasAvailable = 99, GasUsed = 1\<rparr>\<rparr>"
             and out = RetOther and ret = "Some []"
             and err = "NewExcuteError SysErrInvalidMethod"]
        ValidateCaller_exactly_once
          [where fuel = 0 and env = "example_env 7" and ctx = "example_ctx (IDAddr 101) 0 8"
             and vm = "example_vm 100" and a = "example_record (Cid 1) 0"
             and toIDAddr = "IDAddr 101" and ?ctx1.0 = "example_ctx (IDAddr 101) 0 8"
             and ?vm3.0 = "(example_vm 100)\<lparr>snaps := [example_State],
                                gasTank := \<lparr>GasAvailable = 99, GasUsed = 1\<rparr>\<rparr>"
             and d = example_actor
             and m = "example_entry (CallValidateCaller example_any (Return RetOther))"
             and arg = "ObjData []" and res = "Inr RetOther"
             and ?ctx3.0 = "(example_ctx (IDAddr 101) 0 8)
                              \<lparr>stateHandle := True, isCallerValidated := True\<rparr>"
             and ?vm4.0 = "(example_vm 100)\<lparr>snaps := [example_State],
                                gasTank := \<lparr>GasAvailable = 99, GasUsed = 1\<rparr>\<rparr>"
             and out = RetOther and ret = "Some []"
             and err = "NewExcuteError SysErrInvalidMethod"]
  by (simp add: example_defs runtime_defs version_defs exitcode_defs Let_def)

subsection \<open>The depth limit\<close>

text \<open>C5: constructing a frame whose depth exceeds \<^verbatim>\<open>MaxCallDepth\<close> aborts with
  \<^verbatim>\<open>SysErrForbidden\<close> if and only if the network version is at least 6. Below
  version 6 the depth is not checked: when the sender and the recipient normalize, the
  frame is built, one level below its parent.\<close>

theorem newInvocationContext_depth_limit:
  assumes "MaxCallDepth env < depth p + 1"
  shows "(newInvocationContext env vm mesg (Some p) = Inl (ExecutionPanic SysErrForbidden)
            \<longleftrightarrow> Version6 \<le> NetworkVersion env)
       \<and> (NetworkVersion env < Version6 \<longrightarrow>
            normalizeAddress env (State vm) (From mesg) = Some (resF, True) \<longrightarrow>
            normalizeAddress env (State vm) (To mesg) = Some (resT, okT) \<longrightarrow>
            (\<exists>c. newInvocationContext env vm mesg (Some p) = Inr c \<and> depth c = depth p + 1))"
  using assms
  by (auto simp: newInvocationContext_def version_defs exitcode_defs split: option.splits)

text \<open>A parent at depth 4096, the limit of the example: refused at version 6, built at
  version 5.\<close>

theorem newInvocationContext_depth_limit_witness:
  "MaxCallDepth (example_env 6) < depth ((example_ctx (IDAddr 101) 0 1)\<lparr>depth := 4096\<rparr>) + 1
   \<and> newInvocationContext (example_env 6) (example_vm 100) (example_msg (IDAddr 102) 0 1)
        (Some ((example_ctx (IDAddr 101) 0 1)\<lparr>depth := 4096\<rparr>))
       = Inl (ExecutionPanic SysErrForbidden)
   \<and> NetworkVersion (example_env 5) < Version6
   \<and> newInvocationContext (example_env 5) (example_vm 100) (example_msg (IDAddr 102) 0 1)
        (Some ((example_ctx (IDAddr 101) 0 1)\<lparr>depth := 4096\<rparr>))
       \<noteq> Inl (ExecutionPanic SysErrForbidden)
   \<and> (\<exists>c. newInvocationContext (example_env 5) (example_vm 100) (example_msg (IDAddr 102) 0 1)
              (Some ((example_ctx (IDAddr 101) 0 1)\<lparr>depth := 4096\<rparr>)) = Inr c
          \<and> depth c = 4097)"
  using newInvocationContext_depth_limit
          [of "example_env 6" "(example_ctx (IDAddr 101) 0 1)\<lparr>depth := 4096\<rparr>"
              "example_vm 100" "example_msg (IDAddr 102) 0 1"]
        newInvocationContext_depth_limit
          [of "example_env 5" "(example_ctx (IDAddr 101) 0 1)\<lparr>depth := 4096\<rparr>"
              "example_vm 100" "example_msg (IDAddr 102) 0 1" "IDAddr 100" "IDAddr 102" True]
  by (simp add: example_defs version_defs)

subsection \<open>Parameters that do not decode\<close>

text \<open>C6: when the method entry exists and the raw parameter bytes (a \<^verbatim>\<open>[]byte\<close> or
  one of the \<^verbatim>\<open>CBORBytes\<close> types) do not decode into its parameter type,
  \<^verbatim>\<open>Dispatch\<close> returns an execute-error, without running the method: its exit code is
  \<^verbatim>\<open>ErrSerialization\<close> from network version 7 on and \<^verbatim>\<open>1\<close> below.\<close>

theorem Dispatch_decode_failure:
  assumes "signature d methodNum = Inr (Inr m)"
      and "arg1 \<in> {ParamsBytes raw, ParamsCBORBytes2 raw, ParamsCBORBytes3 raw,
                   ParamsCBORBytes raw}"
      and "ArgInterface m raw = None"
  shows "Dispatch nested env d methodNum nvk ctx arg1 vm =
           Some (Inr (Some [], Some (NewExcuteError
                   (if Version7 \<le> nvk then ErrSerialization else 1))), ctx, vm)"
  using assms
  by (auto simp: Dispatch_def buildArgs_def parserByte_def)

text \<open>Empty parameter bytes do not decode for method 1 of the example actor.\<close>

theorem Dispatch_decode_failure_witness:
  "signature example_actor 1 = Inr (Inr (example_entry (CallValidateCaller example_any (Return RetNil))))
   \<and> ArgInterface (example_entry (CallValidateCaller example_any (Return RetNil))) [] = None
   \<and> Dispatch (\<lambda>c v. None) (example_env 7) example_actor 1 7 (example_ctx (IDAddr 101) 0 1)
        (ParamsBytes []) (example_vm 100)
       = Some (Inr (Some [], Some (NewExcuteError ErrSerialization)),
               example_ctx (IDAddr 101) 0 1, example_vm 100)
   \<and> Dispatch (\<lambda>c v. None) (example_env 6) example_actor 1 6 (example_ctx (IDAddr 101) 0 1)
        (ParamsCBORBytes []) (example_vm 100)
       = Some (Inr (Some [], Some (NewExcuteError 1)),
               example_ctx (IDAddr 101) 0 1, example_vm 100)"
  using Dispatch_decode_failure
          [of example_actor 1 "example_entry (CallValidateCaller example_any (Return RetNil))"
              "ParamsBytes []" "[]" "\<lambda>c v. None" "example_env 7" 7
              "example_ctx (IDAddr 101) 0 1" "example_vm 100"]
        Dispatch_decode_failure
          [of example_actor 1 "example_entry (CallValidateCaller example_any (Return RetNil))"
              "ParamsCBORBytes []" "[]" "\<lambda>c v. None" "example_env 6" 6
              "example_ctx (IDAddr 101) 0 1" "example_vm 100"]
  by (simp add: signature_def example_actor_def example_entry_def version_defs)

subsection \<open>The side-effect lock\<close>

text \<open>C7: \<^verbatim>\<open>AllowSideEffects(false)\<close> clears the frame's flag, and \<^verbatim>\<open>Send\<close> from a
  frame whose flag is cleared aborts with \<^verbatim>\<open>SysErrorIllegalActor\<close>. No child frame is
  built or invoked: the VM is returned as it was, whatever the nested \<^verbatim>\<open>invoke\<close> is.
  A body that locks and then sends ends in that abort.\<close>

theorem Send_side_effect_lock:
  "allowSideEffects (AllowSideEffects False shc) = False
   \<and> (\<not> allowSideEffects ctx \<longrightarrow>
        Send nested env ctx toAddr methodNum ps val out vm =
          Some (Inl (ExecutionPanic SysErrorIllegalActor), vm))
   \<and> (stateHandle ctx \<longrightarrow>
        run nested env (CallAllowSideEffects False (CallSend toAddr methodNum ps val out k))
          ctx vm =
          Some (Inl (ExecutionPanic SysErrorIllegalActor), AllowSideEffects False ctx, vm))"
  by (simp add: AllowSideEffects_def Send_def State_of_def)

text \<open>With a nested \<^verbatim>\<open>invoke\<close> that never returns, the locked \<^verbatim>\<open>Send\<close> still
  returns the abort.\<close>

theorem Send_side_effect_lock_witness:
  "\<not> allowSideEffects (AllowSideEffects False (example_ctx (IDAddr 101) 0 1))
   \<and> Send (\<lambda>c v. None) (example_env 7) (AllowSideEffects False (example_ctx (IDAddr 101) 0 1))
        (IDAddr 102) 1 ParamsNil (Some 0) (\<lambda>b. True) (example_vm 100)
       = Some (Inl (ExecutionPanic SysErrorIllegalActor), example_vm 100)
   \<and> stateHandle ((example_ctx (IDAddr 101) 0 1)\<lparr>stateHandle := True\<rparr>)
   \<and> run (\<lambda>c v. None) (example_env 7)
        (CallAllowSideEffects False
           (CallSend (IDAddr 102) 1 ParamsNil (Some 0) (\<lambda>b. True) (\<lambda>c b. Return RetNil)))
        ((example_ctx (IDAddr 101) 0 1)\<lparr>stateHandle := True\<rparr>) (example_vm 100)
       = Some (Inl (ExecutionPanic SysErrorIllegalActor),
               AllowSideEffects False ((example_ctx (IDAddr 101) 0 1)\<lparr>stateHandle := True\<rparr>),
               example_vm 100)"
  using Send_side_effect_lock
          [of "example_ctx (IDAddr 101) 0 1"
              "AllowSideEffects False (example_ctx (IDAddr 101) 0 1)"
              "\<lambda>c v. None" "example_env 7" "IDAddr 102" 1 ParamsNil "Some 0" "\<lambda>b. True"
              "example_vm 100"]
        Send_side_effect_lock
          [of "example_ctx (IDAddr 101) 0 1"
              "(example_ctx (IDAddr 101) 0 1)\<lparr>stateHandle := True\<rparr>"
              "\<lambda>c v. None" "example_env 7" "IDAddr 102" 1 ParamsNil "Some 0" "\<lambda>b. True"
              "example_vm 100" "\<lambda>c b. Return RetNil"]
  by (simp add: AllowSideEffects_def)

subsection \<open>Deleting an actor\<close>




subsection \<open>No implicit account for an address without a key\<close>

text \<open>C9, as the code has it: let the recipient be absent from the state tree with a
  protocol that is neither SECP256K1 nor BLS. Then target resolution never returns
  normally. The protocol is checked after the init actor is found and loaded, the
  implicit account is charged and the address is registered: when these succeed the
  abort is \<^verbatim>\<open>SysErrInvalidReceiver\<close>, and only then; when the gas does not cover the
  charge the abort is \<^verbatim>\<open>SysErrOutOfGas\<close>; and the remaining aborts are
  \<^verbatim>\<open>SysErrSenderInvalid\<close> (no init actor) and a panic (a failed lookup, load or
  registration), which \<^verbatim>\<open>invoke\<close> returns as 1. In every case \<^verbatim>\<open>invoke\<close> on a
  message to that recipient returns a code that is not \<^verbatim>\<open>Ok\<close> and the state tree on
  entry: no actor is created.\<close>

theorem resolveTarget_rejects_non_key_address:
  assumes "State_GetActor env (State vm) target = Inr None"
      and "Protocol target \<noteq> SECP256K1" and "Protocol target \<noteq> BLS"
  shows "(\<exists>e v. resolveTarget nested env ctx target vm = Some (Inl e, v)
            \<and> (e = ExecutionPanic SysErrInvalidReceiver \<or> e = ExecutionPanic SysErrOutOfGas
               \<or> e = ExecutionPanic SysErrSenderInvalid \<or> e = OtherPanic))
       \<and> (State_GetActor env (State vm) init_Address = Inr (Some ia) \<longrightarrow>
          init_Load env ia = Inr st \<longrightarrow>
          Charge (gasTank vm) (OnCreateActor env) = Inr g \<longrightarrow>
          State_RegisterNewAddress env (State vm) target = Inr (tid, t) \<longrightarrow>
            resolveTarget nested env ctx target vm =
              Some (Inl (ExecutionPanic SysErrInvalidReceiver), vm\<lparr>gasTank := g, State := t\<rparr>)
            \<and> (Protocol (From (msg ctx)) = ID \<longrightarrow> To (originMsg ctx) = target \<longrightarrow>
                 invoke_step nested env ctx vm =
                   Some (Inr (Some [], SysErrInvalidReceiver), ctx, vm\<lparr>gasTank := g\<rparr>)))
       \<and> (State_GetActor env (State vm) init_Address = Inr (Some ia) \<longrightarrow>
          init_Load env ia = Inr st \<longrightarrow>
          GasAvailable (gasTank vm) < OnCreateActor env \<longrightarrow>
            resolveTarget nested env ctx target vm =
              Some (Inl (ExecutionPanic SysErrOutOfGas), vm)
            \<and> (Protocol (From (msg ctx)) = ID \<longrightarrow> To (originMsg ctx) = target \<longrightarrow>
                 invoke_step nested env ctx vm =
                   Some (Inr (Some [], SysErrOutOfGas), ctx, vm)))
       \<and> (resolveTarget nested env ctx target vm =
            Some (Inl (ExecutionPanic SysErrInvalidReceiver), v') \<longrightarrow>
          (\<exists>ia st g tid t.
             State_GetActor env (State vm) init_Address = Inr (Some ia)
             \<and> init_Load env ia = Inr st
             \<and> Charge (gasTank vm) (OnCreateActor env) = Inr g
             \<and> State_RegisterNewAddress env (State vm) target = Inr (tid, t)))
       \<and> (To (originMsg ctx) = target \<longrightarrow>
            (\<exists>c ctx' vm'. invoke_step nested env ctx vm = Some (Inr (Some [], c), ctx', vm')
               \<and> c \<noteq> Ok \<and> State vm' = State vm \<and> snaps vm' = snaps vm))"
proof (intro conjI impI)
  note rt = resolveTarget_absent_non_key [OF assms]
  show "\<exists>e v. resolveTarget nested env ctx target vm = Some (Inl e, v)
            \<and> (e = ExecutionPanic SysErrInvalidReceiver \<or> e = ExecutionPanic SysErrOutOfGas
               \<or> e = ExecutionPanic SysErrSenderInvalid \<or> e = OtherPanic)"
    by (simp add: rt Charge_def split: sum.splits option.splits prod.splits)
  show "\<exists>ia st g tid t.
             State_GetActor env (State vm) init_Address = Inr (Some ia)
             \<and> init_Load env ia = Inr st
             \<and> Charge (gasTank vm) (OnCreateActor env) = Inr g
             \<and> State_RegisterNewAddress env (State vm) target = Inr (tid, t)"
    if "resolveTarget nested env ctx target vm =
            Some (Inl (ExecutionPanic SysErrInvalidReceiver), v')"
    using that unfolding rt
    by (auto simp: Charge_def exitcode_defs split: sum.splits option.splits prod.splits if_splits)
  let ?vm0 = "vm\<lparr>snaps := State vm # snaps vm\<rparr>"
  note rt0 = resolveTarget_absent_non_key [of env ?vm0 target nested ctx]
  {
    assume i: "State_GetActor env (State vm) init_Address = Inr (Some ia)"
      and l: "init_Load env ia = Inr st"
      and ch: "Charge (gasTank vm) (OnCreateActor env) = Inr g"
      and rg: "State_RegisterNewAddress env (State vm) target = Inr (tid, t)"
    show "resolveTarget nested env ctx target vm =
            Some (Inl (ExecutionPanic SysErrInvalidReceiver), vm\<lparr>gasTank := g, State := t\<rparr>)"
      by (simp add: rt i l ch rg)
    assume idp: "Protocol (From (msg ctx)) = ID" and tg: "To (originMsg ctx) = target"
    have "resolveTarget nested env ctx target ?vm0 =
            Some (Inl (ExecutionPanic SysErrInvalidReceiver), ?vm0\<lparr>gasTank := g, State := t\<rparr>)"
      using rt0 assms i l ch rg by simp
    then have "invoke_body nested env ctx ?vm0 =
            Some (Inl (ExecutionPanic SysErrInvalidReceiver), ctx, ?vm0\<lparr>gasTank := g, State := t\<rparr>)"
      using idp tg by (simp add: invoke_body_def preDispatch_def)
    then show "invoke_step nested env ctx vm =
            Some (Inr (Some [], SysErrInvalidReceiver), ctx, vm\<lparr>gasTank := g\<rparr>)"
      using invoke_step_abort [of nested env ctx vm "ExecutionPanic SysErrInvalidReceiver" ctx
              "?vm0\<lparr>gasTank := g, State := t\<rparr>"]
      by simp
  }
  {
    assume i: "State_GetActor env (State vm) init_Address = Inr (Some ia)"
      and l: "init_Load env ia = Inr st"
      and low: "GasAvailable (gasTank vm) < OnCreateActor env"
    show "resolveTarget nested env ctx target vm = Some (Inl (ExecutionPanic SysErrOutOfGas), vm)"
      using low by (simp add: rt i l Charge_def)
    assume idp: "Protocol (From (msg ctx)) = ID" and tg: "To (originMsg ctx) = target"
    have "resolveTarget nested env ctx target ?vm0 =
            Some (Inl (ExecutionPanic SysErrOutOfGas), ?vm0)"
      using rt0 assms i l low by (simp add: Charge_def)
    then have "invoke_body nested env ctx ?vm0 =
            Some (Inl (ExecutionPanic SysErrOutOfGas), ctx, ?vm0)"
      using idp tg by (simp add: invoke_body_def preDispatch_def)
    then show "invoke_step nested env ctx vm = Some (Inr (Some [], SysErrOutOfGas), ctx, vm)"
      using invoke_step_abort [of nested env ctx vm "ExecutionPanic SysErrOutOfGas" ctx ?vm0]
      by simp
  }
  assume tg: "To (originMsg ctx) = target"
  have r0: "\<exists>e v. resolveTarget nested env ctx target ?vm0 = Some (Inl e, v)
               \<and> e \<noteq> ExecutionPanic 0 \<and> snaps v = snaps ?vm0"
    using rt0 assms
    by (auto simp: Charge_def exitcode_defs split: sum.splits option.splits prod.splits)
  have "\<exists>e c1 v. invoke_body nested env ctx ?vm0 = Some (Inl e, c1, v)
            \<and> e \<noteq> ExecutionPanic 0 \<and> snaps v = State vm # snaps vm"
  proof (cases "Protocol (From (msg ctx)) = ID")
    case True
    from r0 obtain e v where
      "resolveTarget nested env ctx target ?vm0 = Some (Inl e, v)"
      "e \<noteq> ExecutionPanic 0" "snaps v = snaps ?vm0" by blast
    then show ?thesis
      using True tg by (simp add: invoke_body_def preDispatch_def)
  next
    case False
    then show ?thesis
      by (simp add: invoke_body_def preDispatch_def)
  qed
  then obtain e c1 v where
    b: "invoke_body nested env ctx ?vm0 = Some (Inl e, c1, v)"
       "e \<noteq> ExecutionPanic 0" "snaps v = State vm # snaps vm"
    by blast
  show "\<exists>c ctx' vm'. invoke_step nested env ctx vm = Some (Inr (Some [], c), ctx', vm')
          \<and> c \<noteq> Ok \<and> State vm' = State vm \<and> snaps vm' = snaps vm"
    using invoke_step_abort [OF b(1) b(3)] b(2)
    by (cases e) (auto simp: Ok_def)
qed

text \<open>A message to an actor-protocol address that the example tree does not hold, with
  an empty gas tank: the charge for the implicit account aborts first, and the exit code
  is \<^verbatim>\<open>SysErrOutOfGas\<close>, not \<^verbatim>\<open>SysErrInvalidReceiver\<close>.\<close>

theorem resolveTarget_out_of_gas_counterexample:
  "State_GetActor (example_env 7) (State (example_vm 0)) (ActorAddr [1]) = Inr None
   \<and> Protocol (ActorAddr [1]) \<noteq> SECP256K1 \<and> Protocol (ActorAddr [1]) \<noteq> BLS
   \<and> resolveTarget (invoke 0 (example_env 7)) (example_env 7) (example_ctx (ActorAddr [1]) 1 0)
        (ActorAddr [1]) (example_vm 0)
       = Some (Inl (ExecutionPanic SysErrOutOfGas), example_vm 0)
   \<and> invoke (Suc 0) (example_env 7) (example_ctx (ActorAddr [1]) 1 0) (example_vm 0)
       = Some (Inr (Some [], SysErrOutOfGas), example_ctx (ActorAddr [1]) 1 0, example_vm 0)
   \<and> SysErrOutOfGas \<noteq> SysErrInvalidReceiver"
  by (simp add: example_defs runtime_defs version_defs exitcode_defs Let_def)

text \<open>The same message with gas for the charge is refused for its protocol; with an
  empty tank it is refused for the gas; the tree is restored both times.\<close>

theorem resolveTarget_rejects_non_key_address_witness:
  "State_GetActor (example_env 7) (State (example_vm 100)) (ActorAddr [1]) = Inr None
   \<and> Protocol (ActorAddr [1]) \<noteq> SECP256K1 \<and> Protocol (ActorAddr [1]) \<noteq> BLS
   \<and> State_GetActor (example_env 7) (State (example_vm 100)) init_Address
       = Inr (Some (example_record (Cid 11) 0))
   \<and> (\<exists>st. init_Load (example_env 7) (example_record (Cid 11) 0) = Inr st)
   \<and> resolveTarget (invoke 0 (example_env 7)) (example_env 7) (example_ctx (ActorAddr [1]) 1 0)
        (ActorAddr [1]) (example_vm 100)
       = Some (Inl (ExecutionPanic SysErrInvalidReceiver),
               (example_vm 100)\<lparr>gasTank := \<lparr>GasAvailable = 99, GasUsed = 1\<rparr>\<rparr>)
   \<and> invoke (Suc 0) (example_env 7) (example_ctx (ActorAddr [1]) 1 0) (example_vm 100)
       = Some (Inr (Some [], SysErrInvalidReceiver), example_ctx (ActorAddr [1]) 1 0,
               (example_vm 100)\<lparr>gasTank := \<lparr>GasAvailable = 99, GasUsed = 1\<rparr>\<rparr>)
   \<and> invoke (Suc 0) (example_env 7) (example_ctx (ActorAddr [1]) 1 0) (example_vm 0)
       = Some (Inr (Some [], SysErrOutOfGas), example_ctx (ActorAddr [1]) 1 0, example_vm 0)"
  using resolveTarget_rejects_non_key_address
          [where env = "example_env 7" and vm = "example_vm 100" and target = "ActorAddr [1]"
             and nested = "invoke 0 (example_env 7)"
             and ctx = "example_ctx (ActorAddr [1]) 1 0"
             and ia = "example_record (Cid 11) 0"
             and st = "\<lambda>a. Inr (if Protocol a = ID then Some a else None)"
             and g = "\<lparr>GasAvailable = 99, GasUsed = 1\<rparr>" and tid = "IDAddr 1000"
             and t = example_State]
        resolveTarget_rejects_non_key_address
          [where env = "example_env 7" and vm = "example_vm 0" and target = "ActorAddr [1]"
             and nested = "invoke 0 (example_env 7)"
             and ctx = "example_ctx (ActorAddr [1]) 1 0"
             and ia = "example_record (Cid 11) 0"
             and st = "\<lambda>a. Inr (if Protocol a = ID then Some a else None)"]
  by (simp add: example_defs runtime_defs version_defs exitcode_defs Let_def)

subsection \<open>A caller that does not match\<close>

text \<open>C10: the first \<^verbatim>\<open>ValidateCaller\<close> of a frame, with a pattern that does not match
  the caller, aborts with \<^verbatim>\<open>SysErrForbidden\<close> and leaves the frame as it was, so
  \<^verbatim>\<open>isCallerValidated\<close> stays unset; the body ends in that abort.\<close>

theorem ValidateCaller_mismatch:
  assumes "\<not> isCallerValidated ctx" and "IsMatch pattern env ctx vm = Some False"
  shows "ValidateCaller env pattern ctx vm = (Inl (ExecutionPanic SysErrForbidden), ctx, vm)
       \<and> run nested env (CallValidateCaller pattern k) ctx vm =
           Some (Inl (ExecutionPanic SysErrForbidden), ctx, vm)"
  using assms by (simp add: ValidateCaller_def)

text \<open>A pattern that matches nobody, on a fresh frame.\<close>

theorem ValidateCaller_mismatch_witness:
  "\<not> isCallerValidated (example_ctx (IDAddr 101) 0 1)
   \<and> IsMatch example_nobody (example_env 7) (example_ctx (IDAddr 101) 0 1) (example_vm 100)
       = Some False
   \<and> ValidateCaller (example_env 7) example_nobody (example_ctx (IDAddr 101) 0 1)
        (example_vm 100)
       = (Inl (ExecutionPanic SysErrForbidden), example_ctx (IDAddr 101) 0 1, example_vm 100)
   \<and> \<not> isCallerValidated
         (fst (snd (ValidateCaller (example_env 7) example_nobody
                      (example_ctx (IDAddr 101) 0 1) (example_vm 100))))"
  using ValidateCaller_mismatch
          [of "example_ctx (IDAddr 101) 0 1" example_nobody "example_env 7" "example_vm 100"]
  by (simp add: IsMatch_def example_nobody_def example_ctx_def)

end
